theory Spec2Isabelle
  imports Complex_Main
begin

section \<open>Python values\<close>

text \<open>
  The program handles what the venue's client library hands back: decoded JSON. A value is
  \<open>None\<close>, a \<open>bool\<close>, an unbounded \<open>int\<close>, a \<open>float\<close>, a \<open>str\<close>, a \<open>list\<close> or a
  \<open>dict\<close> with \<open>str\<close> keys. A \<open>str\<close> is a sequence of Unicode code points, so it is a
  list of naturals here; \<open>str\<close> turns a literal of the source into that list. A finite
  \<open>float\<close> is carried as the rational it denotes (the two zeros are one value); the
  non-JSON tokens \<open>NaN\<close> and \<open>Infinity\<close> are not represented. A \<open>dict\<close> is the list of
  its items in insertion order, read with \<open>map_of\<close>; the keys of a Python \<open>dict\<close> are
  distinct.
\<close>

type_synonym pystr = "nat list"

definition str :: "string \<Rightarrow> pystr" where
  "str s = map of_char s"

datatype pyval =
    PNone
  | PBool bool
  | PInt int
  | PFloat rat
  | PStr pystr
  | PList "pyval list"
  | PDict "(pystr \<times> pyval) list"

text \<open>
  What a call can raise. \<open>Exception\<close> stands for an instance of any class derived from
  Python's \<open>Exception\<close> (the argument names the class); the other three are the classes
  that derive from \<open>BaseException\<close> only, which \<open>except Exception\<close> does not catch.
\<close>

datatype exc = Exception string | KeyboardInterrupt | SystemExit | GeneratorExit

fun is_Exception :: "exc \<Rightarrow> bool" where
  "is_Exception (Exception c) = True"
| "is_Exception e = False"

text \<open>Truth value testing, as \<open>not x\<close> and \<open>if x:\<close> apply it.\<close>

fun truthy :: "pyval \<Rightarrow> bool" where
  "truthy PNone = False"
| "truthy (PBool b) = b"
| "truthy (PInt i) = (i \<noteq> 0)"
| "truthy (PFloat r) = (r \<noteq> 0)"
| "truthy (PStr s) = (s \<noteq> [])"
| "truthy (PList xs) = (xs \<noteq> [])"
| "truthy (PDict d) = (d \<noteq> [])"

text \<open>
  The operator \<open>==\<close>: numbers and booleans compare by numeric value (\<open>True == 1\<close>), lists
  element by element, dicts by key set and values, and values of unrelated types are
  unequal.
\<close>

fun num_of :: "pyval \<Rightarrow> rat option" where
  "num_of (PBool b) = Some (if b then 1 else 0)"
| "num_of (PInt i) = Some (of_int i)"
| "num_of (PFloat r) = Some r"
| "num_of v = None"

fun py_eq :: "pyval \<Rightarrow> pyval \<Rightarrow> bool"
  and py_eq_list :: "pyval list \<Rightarrow> pyval list \<Rightarrow> bool"
  and py_eq_items :: "(pystr \<times> pyval) list \<Rightarrow> (pystr \<times> pyval) list \<Rightarrow> bool" where
  "py_eq PNone b = (b = PNone)"
| "py_eq (PBool x) b = (num_of b = Some (if x then 1 else 0))"
| "py_eq (PInt i) b = (num_of b = Some (of_int i))"
| "py_eq (PFloat r) b = (num_of b = Some r)"
| "py_eq (PStr s) b = (b = PStr s)"
| "py_eq (PList xs) b = (case b of PList ys \<Rightarrow> py_eq_list xs ys | _ \<Rightarrow> False)"
| "py_eq (PDict d) b =
     (case b of PDict d' \<Rightarrow> length d = length d' \<and> py_eq_items d d' | _ \<Rightarrow> False)"
| "py_eq_list [] ys = (ys = [])"
| "py_eq_list (x # xs) ys =
     (case ys of [] \<Rightarrow> False | y # ys' \<Rightarrow> py_eq x y \<and> py_eq_list xs ys')"
| "py_eq_items [] d' = True"
| "py_eq_items ((k, v) # d) d' =
     ((case map_of d' k of None \<Rightarrow> False | Some v' \<Rightarrow> py_eq v v') \<and> py_eq_items d d')"

definition isinstance_dict :: "pyval \<Rightarrow> bool" where
  "isinstance_dict v = (case v of PDict d \<Rightarrow> True | _ \<Rightarrow> False)"

definition isinstance_str :: "pyval \<Rightarrow> bool" where
  "isinstance_str v = (case v of PStr s \<Rightarrow> True | _ \<Rightarrow> False)"

text \<open>
  \<open>obj.get(key, default)\<close>: only a \<open>dict\<close> has the method; on any other value the
  attribute lookup raises \<open>AttributeError\<close>.
\<close>

fun dict_get :: "pyval \<Rightarrow> pystr \<Rightarrow> pyval \<Rightarrow> exc + pyval" where
  "dict_get (PDict d) k dflt = Inr (case map_of d k of Some v \<Rightarrow> v | None \<Rightarrow> dflt)"
| "dict_get obj k dflt = Inl (Exception ''AttributeError'')"

text \<open>
  \<open>str.isspace\<close> for one code point: the whitespace code points of the Unicode
  character database, which are the ones \<open>str.strip()\<close> removes.
\<close>

definition isspace :: "nat \<Rightarrow> bool" where
  "isspace c =
     ((9 \<le> c \<and> c \<le> 13) \<or> (28 \<le> c \<and> c \<le> 32) \<or> c = 133 \<or> c = 160 \<or> c = 5760 \<or>
      (8192 \<le> c \<and> c \<le> 8202) \<or> c = 8232 \<or> c = 8233 \<or> c = 8239 \<or> c = 8287 \<or>
      c = 12288)"

definition strip :: "pystr \<Rightarrow> pystr" where
  "strip s = rev (dropWhile isspace (rev (dropWhile isspace s)))"

text \<open>\<open>obj.strip()\<close>: a method of \<open>str\<close>; any other JSON value raises \<open>AttributeError\<close>.\<close>

fun py_strip :: "pyval \<Rightarrow> exc + pystr" where
  "py_strip (PStr s) = Inr (strip s)"
| "py_strip obj = Inl (Exception ''AttributeError'')"

section \<open>The classifier: \<open>filter_current_markets\<close>\<close>

text \<open>
  The \<open>for\<close> loop over \<open>markets\<close>, with the list \<open>current\<close> it appends to as the
  accumulator. A non-dict element is skipped by \<open>continue\<close>; both lookups default to
  \<open>True\<close>; the test is \<open>not is_closed and not is_archived\<close>.
\<close>

fun filter_current_loop :: "pyval list \<Rightarrow> pyval list \<Rightarrow> exc + pyval list" where
  "filter_current_loop [] current = Inr current"
| "filter_current_loop (market # markets) current =
     (if \<not> isinstance_dict market then filter_current_loop markets current
      else
        case dict_get market (str ''closed'') (PBool True) of
          Inl e \<Rightarrow> Inl e
        | Inr is_closed \<Rightarrow>
            (case dict_get market (str ''archived'') (PBool True) of
               Inl e \<Rightarrow> Inl e
             | Inr is_archived \<Rightarrow>
                 if \<not> truthy is_closed \<and> \<not> truthy is_archived
                 then filter_current_loop markets (current @ [market])
                 else filter_current_loop markets current))"

definition filter_current_markets :: "pyval list \<Rightarrow> exc + pyval list" where
  "filter_current_markets markets = filter_current_loop markets []"

section \<open>The extractor: \<open>extract_market_names\<close>\<close>

definition name_fields :: "pystr list" where
  "name_fields =
     [str ''question'', str ''title'', str ''name'', str ''description'', str ''market_slug'']"

text \<open>
  The inner \<open>for field in [...]\<close> loop of one record: \<open>name\<close> stays \<open>None\<close> until a field
  holds a \<open>str\<close> whose \<open>strip()\<close> is non-empty, and the loop breaks there.
\<close>

fun find_name :: "pystr list \<Rightarrow> pyval \<Rightarrow> exc + pystr option" where
  "find_name [] market = Inr None"
| "find_name (field # fields) market =
     (case dict_get market field PNone of
        Inl e \<Rightarrow> Inl e
      | Inr val \<Rightarrow>
          if isinstance_str val then
            (case py_strip val of
               Inl e \<Rightarrow> Inl e
             | Inr s \<Rightarrow>
                 if s \<noteq> [] then
                   (case py_strip val of Inl e \<Rightarrow> Inl e | Inr name \<Rightarrow> Inr (Some name))
                 else find_name fields market)
          else find_name fields market)"

text \<open>The outer loop, with the list \<open>names\<close> as the accumulator; \<open>if name:\<close> guards the append.\<close>

fun extract_loop :: "pyval list \<Rightarrow> pystr list \<Rightarrow> exc + pystr list" where
  "extract_loop [] names = Inr names"
| "extract_loop (market # markets) names =
     (if \<not> isinstance_dict market then extract_loop markets names
      else
        case find_name name_fields market of
          Inl e \<Rightarrow> Inl e
        | Inr None \<Rightarrow> extract_loop markets names
        | Inr (Some name) \<Rightarrow>
            if name \<noteq> [] then extract_loop markets (names @ [name])
            else extract_loop markets names)"

definition extract_market_names :: "pyval list \<Rightarrow> exc + pystr list" where
  "extract_market_names markets = extract_loop markets []"

section \<open>The paginator: \<open>fetch_all_markets\<close>\<close>

text \<open>
  What \<open>list.extend(x)\<close> iterates over: the elements of a list, the one-character strings
  of a \<open>str\<close>, the keys of a \<open>dict\<close>; any other JSON value is not iterable and raises
  \<open>TypeError\<close> before the list is touched.
\<close>

fun py_iter :: "pyval \<Rightarrow> exc + pyval list" where
  "py_iter (PList xs) = Inr xs"
| "py_iter (PStr s) = Inr (map (\<lambda>c. PStr [c]) s)"
| "py_iter (PDict d) = Inr (map (\<lambda>(k, v). PStr k) d)"
| "py_iter obj = Inl (Exception ''TypeError'')"

text \<open>
  The client library is outside the program. \<open>ClobClient(api_url)\<close> returns a client or
  raises; \<open>client.get_markets(next_cursor=cursor)\<close> returns a value or raises, and may
  change the state \<open>'s\<close> of the client and of the server behind it.
\<close>

record 's clob_client =
  new_client :: "pystr \<Rightarrow> exc + 's"
  get_markets :: "'s \<Rightarrow> pyval \<Rightarrow> (exc + pyval) \<times> 's"

text \<open>
  The variables of the loop, together with the client and the list of the requests made so
  far: each entry is the cursor sent and what the call returned or raised. Console output
  is not modelled.
\<close>

record 's fetch_state =
  all_markets :: "pyval list"
  cursor :: pyval
  page_count :: int
  client :: 's
  requests :: "(pyval \<times> (exc + pyval)) list"

text \<open>How one pass through the body of the \<open>while\<close> loop ends.\<close>

datatype flow = Continue | Break | Propagate exc

text \<open>
  \<open>except Exception as e: ... break\<close>: an exception of a class derived from \<open>Exception\<close>
  ends the loop; any other leaves the function.
\<close>

definition on_exception :: "exc \<Rightarrow> 's fetch_state \<Rightarrow> flow \<times> 's fetch_state" where
  "on_exception e st = (if is_Exception e then (Break, st) else (Propagate e, st))"

text \<open>
  The body of the loop, in the order of the source: the call, the test
  \<open>isinstance(response, dict) and "data" in response\<close>, \<open>all_markets.extend(markets)\<close>,
  \<open>response.get("next_cursor")\<close>, \<open>page_count += 1\<close>, and the test
  \<open>not next_cursor or next_cursor == cursor\<close> before \<open>cursor = next_cursor\<close>.
\<close>

definition fetch_page ::
  "('s \<Rightarrow> pyval \<Rightarrow> (exc + pyval) \<times> 's) \<Rightarrow> 's fetch_state \<Rightarrow> flow \<times> 's fetch_state" where
  "fetch_page get st =
     (case get (client st) (cursor st) of
        (outcome, client') \<Rightarrow>
          let st1 = st\<lparr>client := client', requests := requests st @ [(cursor st, outcome)]\<rparr> in
          case outcome of
            Inl e \<Rightarrow> on_exception e st1
          | Inr response \<Rightarrow>
              (case response of
                 PDict d \<Rightarrow>
                   (case map_of d (str ''data'') of
                      None \<Rightarrow> (Break, st1)
                    | Some markets \<Rightarrow>
                        (case py_iter markets of
                           Inl e \<Rightarrow> on_exception e st1
                         | Inr items \<Rightarrow>
                             let st2 = st1\<lparr>all_markets := all_markets st1 @ items\<rparr> in
                             (case dict_get response (str ''next_cursor'') PNone of
                                Inl e \<Rightarrow> on_exception e st2
                              | Inr next_cursor \<Rightarrow>
                                  let st3 = st2\<lparr>page_count := page_count st2 + 1\<rparr> in
                                  if \<not> truthy next_cursor \<or> py_eq next_cursor (cursor st)
                                  then (Break, st3)
                                  else (Continue, st3\<lparr>cursor := next_cursor\<rparr>))))
               | _ \<Rightarrow> (Break, st1)))"

text \<open>
  \<open>while page_count < max_pages\<close>. The result is the exception that left the function,
  if any, and the final state. The loop terminates because every pass that continues has
  incremented \<open>page_count\<close>.
\<close>

function fetch_loop ::
  "('s \<Rightarrow> pyval \<Rightarrow> (exc + pyval) \<times> 's) \<Rightarrow> int \<Rightarrow> 's fetch_state \<Rightarrow> exc option \<times> 's fetch_state" where
  "fetch_loop get max_pages st =
     (if page_count st < max_pages then
        (case fetch_page get st of
           (Continue, st') \<Rightarrow> fetch_loop get max_pages st'
         | (Break, st') \<Rightarrow> (None, st')
         | (Propagate e, st') \<Rightarrow> (Some e, st'))
      else (None, st))"
  by pat_completeness auto
termination
proof (relation "measure (\<lambda>(get, max_pages, st). nat (max_pages - page_count st))")
  show "wf (measure (\<lambda>(get, max_pages, st). nat (max_pages - page_count st)))" by simp
next
  fix get :: "'s \<Rightarrow> pyval \<Rightarrow> (exc + pyval) \<times> 's" and max_pages st x1 x2
  assume below: "page_count st < max_pages"
    and page: "(x1, x2) = fetch_page get st" and continues: "x1 = Continue"
  from page continues have "fetch_page get st = (Continue, x2)" by simp
  then have "page_count x2 = page_count st + 1"
    by (auto simp add: fetch_page_def on_exception_def Let_def
        split: prod.splits sum.splits pyval.splits option.splits if_splits)
  then show "((get, max_pages, x2), get, max_pages, st)
    \<in> measure (\<lambda>(get, max_pages, st). nat (max_pages - page_count st))"
    using below by simp
qed

declare fetch_loop.simps [simp del]

text \<open>
  The function: the client is built outside the \<open>try\<close>, the loop starts from the cursor
  \<open>"MA=="\<close> with no records and no pages, and \<open>all_markets\<close> is returned. The model returns
  the list of requests beside it.
\<close>

definition fetch_all_markets ::
  "'s clob_client \<Rightarrow> pystr \<Rightarrow> int \<Rightarrow> (exc + pyval list) \<times> (pyval \<times> (exc + pyval)) list" where
  "fetch_all_markets lib api_url max_pages =
     (case new_client lib api_url of
        Inl e \<Rightarrow> (Inl e, [])
      | Inr c \<Rightarrow>
          (case fetch_loop (get_markets lib) max_pages
                  \<lparr>all_markets = [], cursor = PStr (str ''MA==''), page_count = 0, client = c,
                   requests = []\<rparr> of
             (None, st) \<Rightarrow> (Inr (all_markets st), requests st)
           | (Some e, st) \<Rightarrow> (Inl e, requests st)))"

section \<open>The entry point: \<open>main\<close>\<close>

definition DEFAULT_API_URL :: pystr where
  "DEFAULT_API_URL = str ''https://clob.polymarket.com''"

definition DEFAULT_OUTPUT_FILENAME :: pystr where
  "DEFAULT_OUTPUT_FILENAME = str ''markets.json''"

definition DEFAULT_NAMES_OUTPUT_FILENAME :: pystr where
  "DEFAULT_NAMES_OUTPUT_FILENAME = str ''market_names.json''"

definition DEFAULT_CURRENT_MARKETS_FILENAME :: pystr where
  "DEFAULT_CURRENT_MARKETS_FILENAME = str ''current_markets.json''"

definition DEFAULT_CURRENT_NAMES_FILENAME :: pystr where
  "DEFAULT_CURRENT_NAMES_FILENAME = str ''current_market_names.json''"

definition MAX_PAGES :: int where
  "MAX_PAGES = 100"

text \<open>
  The parsed command line, as \<open>parser.parse_args()\<close> returns it; \<open>--out\<close> and
  \<open>--names-out\<close> are \<open>None\<close> when absent. Parsing itself happens before the \<open>try\<close> and is
  not modelled.
\<close>

record args =
  arg_api_url :: pystr
  arg_out :: "pystr option"
  arg_names_out :: "pystr option"
  arg_indent :: int
  arg_max_pages :: int
  arg_current :: bool

text \<open>
  The lines that \<open>main\<close> prints on standard output inside its \<open>try\<close>, each with the
  values it interpolates: lines 206, 219, 224, 228 and 233 of the source. They begin with
  the character U+2713, which a standard output with a narrow encoding cannot encode:
  \<open>print\<close> then raises \<open>UnicodeEncodeError\<close>. The lines written to standard error are not
  modelled.
\<close>

datatype 'p message =
    Filtered nat nat
  | Saved_current_markets nat 'p
  | Saved_current_names nat 'p
  | Saved_markets nat 'p
  | Saved_names nat 'p

text \<open>
  What \<open>main\<close> uses of its platform: \<open>pathlib\<close> (the directory of the script, \<open>Path(text)\<close>
  and \<open>dir / name\<close>, over a type \<open>'p\<close> of paths), the file system behind \<open>save_json\<close>
  (\<open>mkdir\<close>, \<open>open\<close> and \<open>json.dump\<close> together succeed or raise) and standard output. \<open>'w\<close>
  is the state of the file system and the console.
\<close>

record ('w, 'p) platform =
  script_dir :: 'p
  new_path :: "pystr \<Rightarrow> 'p"
  path_div :: "'p \<Rightarrow> pystr \<Rightarrow> 'p"
  save_json :: "'w \<Rightarrow> pyval \<Rightarrow> 'p \<Rightarrow> int \<Rightarrow> exc option \<times> 'w"
  print_stdout :: "'w \<Rightarrow> 'p message \<Rightarrow> exc option \<times> 'w"

text \<open>
  \<open>Path(args.out) if args.out else script_dir / DEFAULT_OUTPUT_FILENAME\<close>, and the same for
  \<open>--names-out\<close>: an absent or empty option selects the default.
\<close>

definition markets_path :: "('w, 'p) platform \<Rightarrow> args \<Rightarrow> 'p" where
  "markets_path os args =
     (case arg_out args of
        Some p \<Rightarrow>
          if p \<noteq> [] then new_path os p else path_div os (script_dir os) DEFAULT_OUTPUT_FILENAME
      | None \<Rightarrow> path_div os (script_dir os) DEFAULT_OUTPUT_FILENAME)"

definition names_path :: "('w, 'p) platform \<Rightarrow> args \<Rightarrow> 'p" where
  "names_path os args =
     (case arg_names_out args of
        Some p \<Rightarrow>
          if p \<noteq> [] then new_path os p
          else path_div os (script_dir os) DEFAULT_NAMES_OUTPUT_FILENAME
      | None \<Rightarrow> path_div os (script_dir os) DEFAULT_NAMES_OUTPUT_FILENAME)"

text \<open>
  The two handlers of the \<open>try\<close> in \<open>main\<close>, in their order: \<open>KeyboardInterrupt\<close> returns
  130, \<open>Exception\<close> returns 1, and anything else is not caught.
\<close>

fun top_level_handler :: "exc \<Rightarrow> exc + int" where
  "top_level_handler KeyboardInterrupt = Inr 130"
| "top_level_handler (Exception cls) = Inr 1"
| "top_level_handler e = Inl e"

text \<open>
  A statement of the \<open>try\<close> block that acts on the platform: when it raises, the handlers
  decide; otherwise the statements after it run on the new state.
\<close>

definition guarded ::
  "exc option \<times> 'w \<Rightarrow> ('w \<Rightarrow> (exc + int) \<times> 'w) \<Rightarrow> (exc + int) \<times> 'w" where
  "guarded step rest =
     (case step of (Some e, w) \<Rightarrow> (top_level_handler e, w) | (None, w) \<Rightarrow> rest w)"

text \<open>
  Both branches of \<open>if args.current\<close> end with the same statements on their own list, paths
  and messages: save the records, print, extract the names, save the names, print;
  \<open>return 0\<close> follows.
\<close>

definition save_markets_and_names ::
  "('w, 'p) platform \<Rightarrow> pyval list \<Rightarrow> 'p \<Rightarrow> 'p \<Rightarrow> int \<Rightarrow> (nat \<Rightarrow> 'p \<Rightarrow> 'p message) \<Rightarrow>
   (nat \<Rightarrow> 'p \<Rightarrow> 'p message) \<Rightarrow> 'w \<Rightarrow> (exc + int) \<times> 'w" where
  "save_markets_and_names os markets mpath npath indent saved_markets saved_names w =
     guarded (save_json os w (PList markets) mpath indent) (\<lambda>wa.
     guarded (print_stdout os wa (saved_markets (length markets) mpath)) (\<lambda>wb.
     case extract_market_names markets of
       Inl e \<Rightarrow> (top_level_handler e, wb)
     | Inr names \<Rightarrow>
         guarded (save_json os wb (PList (map PStr names)) npath indent) (\<lambda>wc.
         guarded (print_stdout os wc (saved_names (length names) npath)) (\<lambda>wd.
         (Inr 0, wd)))))"

text \<open>
  \<open>main\<close> after argument parsing. The result is the exit code returned, or the exception
  that escaped, with the final state of the platform.
\<close>

definition main ::
  "'s clob_client \<Rightarrow> ('w, 'p) platform \<Rightarrow> args \<Rightarrow> 'w \<Rightarrow> (exc + int) \<times> 'w" where
  "main lib os args w =
     (case fst (fetch_all_markets lib (arg_api_url args) (arg_max_pages args)) of
        Inl e \<Rightarrow> (top_level_handler e, w)
      | Inr fetched \<Rightarrow>
          if fetched = [] then (Inr 1, w)
          else if arg_current args then
            (case filter_current_markets fetched of
               Inl e \<Rightarrow> (top_level_handler e, w)
             | Inr current_markets \<Rightarrow>
                 guarded
                   (print_stdout os w (Filtered (length current_markets) (length fetched)))
                   (\<lambda>wp.
                      if current_markets = [] then (Inr 1, wp)
                      else
                        save_markets_and_names os current_markets
                          (path_div os (script_dir os) DEFAULT_CURRENT_MARKETS_FILENAME)
                          (path_div os (script_dir os) DEFAULT_CURRENT_NAMES_FILENAME)
                          (arg_indent args) Saved_current_markets Saved_current_names wp))
          else
            save_markets_and_names os fetched (markets_path os args) (names_path os args)
              (arg_indent args) Saved_markets Saved_names w)"

section \<open>Notions used to state the properties\<close>

text \<open>
  What the loop of \<open>filter_current_markets\<close> keeps, read off its test: a dict whose
  \<open>closed\<close> and \<open>archived\<close> entries are both present and both falsy.
\<close>

definition field_falsy :: "(pystr \<times> pyval) list \<Rightarrow> pystr \<Rightarrow> bool" where
  "field_falsy d k = (case map_of d k of Some v \<Rightarrow> \<not> truthy v | None \<Rightarrow> False)"

definition kept :: "pyval \<Rightarrow> bool" where
  "kept market =
     (case market of
        PDict d \<Rightarrow> field_falsy d (str ''closed'') \<and> field_falsy d (str ''archived'')
      | _ \<Rightarrow> False)"

text \<open>
  The policy in the words of the docstring and of the specification: the field is
  present and \<open>== False\<close>.
\<close>

definition field_is_false :: "(pystr \<times> pyval) list \<Rightarrow> pystr \<Rightarrow> bool" where
  "field_is_false d k = (case map_of d k of Some v \<Rightarrow> py_eq v (PBool False) | None \<Rightarrow> False)"

definition spec_current :: "pyval \<Rightarrow> bool" where
  "spec_current market =
     (case market of
        PDict d \<Rightarrow> field_is_false d (str ''closed'') \<and> field_is_false d (str ''archived'')
      | _ \<Rightarrow> False)"

text \<open>
  A field is usable when its value is a \<open>str\<close> that is non-empty after trimming;
  \<open>first_usable\<close> is the trimmed text of the first usable field of a preference list,
  and \<open>entry\<close> what one element of the input contributes to the names.
\<close>

definition usable :: "(pystr \<times> pyval) list \<Rightarrow> pystr \<Rightarrow> bool" where
  "usable d f = (case map_of d f of Some (PStr s) \<Rightarrow> strip s \<noteq> [] | _ \<Rightarrow> False)"

fun first_usable :: "pystr list \<Rightarrow> (pystr \<times> pyval) list \<Rightarrow> pystr option" where
  "first_usable [] d = None"
| "first_usable (f # fs) d =
     (case map_of d f of
        Some (PStr s) \<Rightarrow> if strip s \<noteq> [] then Some (strip s) else first_usable fs d
      | _ \<Rightarrow> first_usable fs d)"

definition entry :: "pyval \<Rightarrow> pystr list" where
  "entry market =
     (case market of
        PDict d \<Rightarrow> (case first_usable name_fields d of Some n \<Rightarrow> [n] | None \<Rightarrow> [])
      | _ \<Rightarrow> [])"

text \<open>
  What a request contributed to the result: the items of \<open>data\<close> when the call returned a
  dict with an iterable \<open>data\<close>, and nothing otherwise.
\<close>

definition page_records :: "exc + pyval \<Rightarrow> pyval list" where
  "page_records outcome =
     (case outcome of
        Inr (PDict d) \<Rightarrow>
          (case map_of d (str ''data'') of
             Some markets \<Rightarrow> (case py_iter markets of Inr items \<Rightarrow> items | Inl e \<Rightarrow> [])
           | None \<Rightarrow> [])
      | _ \<Rightarrow> [])"

text \<open>A malformed response: anything but a dict with the key \<open>data\<close>.\<close>

definition malformed :: "pyval \<Rightarrow> bool" where
  "malformed response =
     (case response of PDict d \<Rightarrow> map_of d (str ''data'') = None | _ \<Rightarrow> True)"

text \<open>
  A well-formed page with a valid continuation token for the cursor that was sent: \<open>data\<close>
  is iterable, and \<open>next_cursor\<close> is present, non-empty and different from that cursor.
\<close>

definition valid_page :: "pyval \<Rightarrow> pyval \<Rightarrow> bool" where
  "valid_page response sent =
     (case response of
        PDict d \<Rightarrow>
          (case map_of d (str ''data'') of
             Some markets \<Rightarrow> (case py_iter markets of Inr items \<Rightarrow> True | Inl e \<Rightarrow> False)
           | None \<Rightarrow> False) \<and>
          (case map_of d (str ''next_cursor'') of
             Some next_cursor \<Rightarrow> truthy next_cursor \<and> \<not> py_eq next_cursor sent
           | None \<Rightarrow> False)
      | _ \<Rightarrow> False)"

text \<open>
  The continuation token of an answer, as \<open>response.get("next_cursor")\<close> reads it, and the
  exchange that \<open>n\<close> successive calls of the client produce when the first is sent the
  cursor \<open>c\<close> and each later one the token of the answer before it: the cursor sent and
  the client's outcome, call by call, with the client's state threaded through.
  \<open>session\<close> is that exchange for \<open>max_pages\<close> calls from the initial cursor.
\<close>

definition next_cursor_of :: "exc + pyval \<Rightarrow> pyval" where
  "next_cursor_of outcome =
     (case outcome of
        Inr (PDict d) \<Rightarrow> (case map_of d (str ''next_cursor'') of Some v \<Rightarrow> v | None \<Rightarrow> PNone)
      | _ \<Rightarrow> PNone)"

fun transcript ::
  "('s \<Rightarrow> pyval \<Rightarrow> (exc + pyval) \<times> 's) \<Rightarrow> nat \<Rightarrow> 's \<Rightarrow> pyval \<Rightarrow> (pyval \<times> (exc + pyval)) list" where
  "transcript get 0 s c = []"
| "transcript get (Suc n) s c =
     (case get s c of
        (outcome, s') \<Rightarrow> (c, outcome) # transcript get n s' (next_cursor_of outcome))"

definition session :: "'s clob_client \<Rightarrow> int \<Rightarrow> 's \<Rightarrow> (pyval \<times> (exc + pyval)) list" where
  "session lib max_pages c = transcript (get_markets lib) (nat max_pages) c (PStr (str ''MA==''))"

text \<open>
  A request after which pagination goes on (a well-formed page with a valid continuation
  token), and an outcome that is a transport fault or a malformed response.
\<close>

definition continues :: "pyval \<times> (exc + pyval) \<Rightarrow> bool" where
  "continues request =
     (case snd request of Inr response \<Rightarrow> valid_page response (fst request) | Inl e \<Rightarrow> False)"

definition fault_or_malformed :: "exc + pyval \<Rightarrow> bool" where
  "fault_or_malformed outcome =
     (case outcome of Inl e \<Rightarrow> is_Exception e | Inr response \<Rightarrow> malformed response)"

subsection \<open>Example clients\<close>

text \<open>
  Clients without state: one whose every call raises, one that answers with an error
  object, one that always hands out a fresh cursor, one that answers once and then fails, one that
  echoes the cursor it was sent,
  and the two-page server of the specification's scenario.
\<close>

definition failing_client :: "unit clob_client" where
  "failing_client =
     \<lparr>new_client = (\<lambda>url. Inr ()),
      get_markets = (\<lambda>s c. (Inl (Exception ''ConnectionError''), s))\<rparr>"

definition malformed_client :: "unit clob_client" where
  "malformed_client =
     \<lparr>new_client = (\<lambda>url. Inr ()),
      get_markets = (\<lambda>s c. (Inr (PDict [(str ''error'', PStr (str ''bad request''))]), s))\<rparr>"

definition endless_page :: "pyval \<Rightarrow> pyval" where
  "endless_page sent =
     PDict [(str ''data'', PList [PDict [(str ''question'', PStr (str ''Q''))]]),
            (str ''next_cursor'',
             (case sent of PStr t \<Rightarrow> PStr (t @ str ''x'') | _ \<Rightarrow> PStr (str ''x'')))]"

definition endless_client :: "unit clob_client" where
  "endless_client =
     \<lparr>new_client = (\<lambda>url. Inr ()), get_markets = (\<lambda>s c. (Inr (endless_page c), s))\<rparr>"

definition flaky_page :: pyval where
  "flaky_page = PDict [(str ''data'', PList [PInt 1]), (str ''next_cursor'', PStr (str ''B''))]"

definition flaky_client :: "unit clob_client" where
  "flaky_client =
     \<lparr>new_client = (\<lambda>url. Inr ()),
      get_markets = (\<lambda>s c.
        if c = PStr (str ''MA=='') then (Inr flaky_page, s)
        else (Inl (Exception ''ConnectionError''), s))\<rparr>"

definition looping_client :: "unit clob_client" where
  "looping_client =
     \<lparr>new_client = (\<lambda>url. Inr ()),
      get_markets = (\<lambda>s c.
        (Inr (PDict [(str ''data'', PList [PDict [(str ''question'', PStr (str ''Q''))]]),
                     (str ''next_cursor'', c)]), s))\<rparr>"

definition page1 :: pyval where
  "page1 = PDict [(str ''data'', PList [PDict [(str ''question'', PStr (str ''one''))],
                                        PDict [(str ''question'', PStr (str ''two''))]]),
                  (str ''next_cursor'', PStr (str ''B''))]"

definition page2 :: pyval where
  "page2 = PDict [(str ''data'', PList [PDict [(str ''question'', PStr (str ''three''))]])]"

definition scenario_client :: "unit clob_client" where
  "scenario_client =
     \<lparr>new_client = (\<lambda>url. Inr ()),
      get_markets = (\<lambda>s c.
        if c = PStr (str ''MA=='') then (Inr page1, s)
        else if c = PStr (str ''B'') then (Inr page2, s)
        else (Inl (Exception ''unexpected cursor''), s))\<rparr>"

text \<open>What \<open>main\<close> can end with: the exit codes 0, 1 and 130, or an escaping \<open>SystemExit\<close> or
  \<open>GeneratorExit\<close>.\<close>

definition exits :: "(exc + int) set" where
  "exits = {Inr 0, Inr 1, Inr 130, Inl SystemExit, Inl GeneratorExit}"

text \<open>
  The outcome of a run of statements of the \<open>try\<close> block, given what each of them did in
  its turn: the handlers act on the first exception raised, and when none is raised the
  \<open>return\<close> that follows gives the code.
\<close>

fun first_raised :: "exc option list \<Rightarrow> exc option" where
  "first_raised [] = None"
| "first_raised (None # steps) = first_raised steps"
| "first_raised (Some e # steps) = Some e"

definition exit_after :: "exc option list \<Rightarrow> int \<Rightarrow> exc + int" where
  "exit_after steps code =
     (case first_raised steps of None \<Rightarrow> Inr code | Some e \<Rightarrow> top_level_handler e)"

text \<open>
  A client interrupted by the user during the first request, a client that cannot be
  built, a client whose one record is an open market, and a command line without options.
\<close>

definition interrupted_client :: "unit clob_client" where
  "interrupted_client =
     \<lparr>new_client = (\<lambda>url. Inr ()), get_markets = (\<lambda>s c. (Inl KeyboardInterrupt, s))\<rparr>"

definition unreachable_client :: "unit clob_client" where
  "unreachable_client =
     \<lparr>new_client = (\<lambda>url. Inl (Exception ''ConnectionError'')),
      get_markets = (\<lambda>s c. (Inl (Exception ''ConnectionError''), s))\<rparr>"

definition open_market :: pyval where
  "open_market =
     PDict [(str ''question'', PStr (str ''Q'')), (str ''closed'', PBool False),
            (str ''archived'', PBool False)]"

definition open_market_client :: "unit clob_client" where
  "open_market_client =
     \<lparr>new_client = (\<lambda>url. Inr ()),
      get_markets = (\<lambda>s c. (Inr (PDict [(str ''data'', PList [open_market])]), s))\<rparr>"

definition default_args :: args where
  "default_args =
     \<lparr>arg_api_url = DEFAULT_API_URL, arg_out = None, arg_names_out = None, arg_indent = 2,
      arg_max_pages = MAX_PAGES, arg_current = False\<rparr>"

text \<open>
  Platforms whose paths are their text and whose state counts the saves attempted: one on
  which everything succeeds, one on which the user interrupts the second save, one whose
  standard output cannot encode U+2713, and one whose disk is full.
\<close>

definition working_platform :: "(nat, pystr) platform" where
  "working_platform =
     \<lparr>script_dir = str ''/srv'', new_path = (\<lambda>t. t), path_div = (\<lambda>d n. d @ str ''/'' @ n),
      save_json = (\<lambda>w v p i. (None, Suc w)), print_stdout = (\<lambda>w m. (None, w))\<rparr>"

definition second_save_interrupted :: "(nat, pystr) platform" where
  "second_save_interrupted =
     working_platform
       \<lparr>save_json := (\<lambda>w v p i. (if w = 1 then Some KeyboardInterrupt else None, Suc w))\<rparr>"

definition stdout_cannot_encode :: "(nat, pystr) platform" where
  "stdout_cannot_encode =
     working_platform
       \<lparr>print_stdout := (\<lambda>w m. (Some (Exception ''UnicodeEncodeError''), w))\<rparr>"

definition disk_full :: "(nat, pystr) platform" where
  "disk_full = working_platform\<lparr>save_json := (\<lambda>w v p i. (Some (Exception ''OSError''), Suc w))\<rparr>"

section \<open>Properties of the classifier\<close>

lemma filter_current_loop_eq:
  "filter_current_loop markets current = Inr (current @ filter kept markets)"
proof (induction markets arbitrary: current)
  case Nil
  show ?case by simp
next
  case (Cons market markets)
  show ?case
  proof (cases market)
    case (PDict d)
    then show ?thesis
      by (auto simp add: Cons.IH isinstance_dict_def kept_def field_falsy_def split: option.splits)
  qed (simp_all add: Cons.IH isinstance_dict_def kept_def)
qed

lemma filter_current_markets_eq: "filter_current_markets markets = Inr (filter kept markets)"
  by (simp add: filter_current_markets_def filter_current_loop_eq)

text \<open>
  C1. The claim: \<open>filter_current_markets\<close> returns exactly the records whose \<open>closed\<close>
  and \<open>archived\<close> fields are present and equal false. The loop tests \<open>not is_closed\<close>,
  so a record whose two fields are \<open>None\<close> (JSON \<open>null\<close>) is returned although neither
  field equals \<open>False\<close>: the code evaluated at that record.
\<close>

theorem filter_current_markets_null_flags: "filter_current_markets [PDict [(str ''closed'', PNone), (str ''archived'', PNone)]]
    = Inr [PDict [(str ''closed'', PNone), (str ''archived'', PNone)]]
  \<and> \<not> spec_current (PDict [(str ''closed'', PNone), (str ''archived'', PNone)])"
  by (simp add: filter_current_markets_def isinstance_dict_def spec_current_def field_is_false_def str_def)

text \<open>
  C7. \<open>filter_current_markets\<close> is idempotent: it returns a list, and applied to that
  list it returns the same list again.
\<close>

theorem filter_current_markets_idempotent: "\<exists>r. filter_current_markets markets = Inr r \<and> filter_current_markets r = Inr r"
  by (simp add: filter_current_markets_eq)

section \<open>Properties of the extractor\<close>

lemma find_name_eq: "find_name fs (PDict d) = Inr (first_usable fs d)"
proof (induction fs)
  case Nil
  show ?case by simp
next
  case (Cons f fs)
  show ?case
  proof (cases "map_of d f")
    case None
    then show ?thesis by (simp add: Cons.IH isinstance_str_def)
  next
    case (Some v)
    then show ?thesis by (cases v) (simp_all add: Cons.IH isinstance_str_def)
  qed
qed

lemma first_usable_nonempty: "first_usable fs d = Some n \<Longrightarrow> n \<noteq> []"
  by (induction fs) (auto split: option.splits pyval.splits if_splits)

lemma extract_loop_eq: "extract_loop markets names = Inr (names @ concat (map entry markets))"
proof (induction markets arbitrary: names)
  case Nil
  show ?case by simp
next
  case (Cons market markets)
  show ?case
  proof (cases market)
    case (PDict d)
    then show ?thesis
      by (auto simp add: Cons.IH isinstance_dict_def entry_def find_name_eq
          split: option.splits dest: first_usable_nonempty)
  qed (simp_all add: Cons.IH isinstance_dict_def entry_def)
qed

lemma extract_market_names_eq: "extract_market_names markets = Inr (concat (map entry markets))"
  by (simp add: extract_market_names_def extract_loop_eq)

lemma first_usable_at:
  "i < length fs \<Longrightarrow> map_of d (fs ! i) = Some (PStr s) \<Longrightarrow> strip s \<noteq> [] \<Longrightarrow>
   \<forall>j<i. \<not> usable d (fs ! j) \<Longrightarrow> first_usable fs d = Some (strip s)"
proof (induction fs arbitrary: i)
  case Nil
  then show ?case by simp
next
  case (Cons f fs)
  show ?case
  proof (cases i)
    case 0
    with Cons.prems show ?thesis by simp
  next
    case (Suc k)
    have nu: "\<not> usable d f" using Cons.prems(4) Suc by auto
    have "\<forall>j<k. \<not> usable d (fs ! j)"
    proof (intro allI impI)
      fix j assume "j < k"
      then have "Suc j < i" using Suc by simp
      then have "\<not> usable d ((f # fs) ! Suc j)" using Cons.prems(4) by blast
      then show "\<not> usable d (fs ! j)" by simp
    qed
    then have "first_usable fs d = Some (strip s)"
      using Cons.IH [of k] Cons.prems Suc by simp
    then show ?thesis using nu
      by (auto simp add: usable_def split: option.splits pyval.splits)
  qed
qed

lemma first_usable_none: "\<forall>f\<in>set fs. \<not> usable d f \<Longrightarrow> first_usable fs d = None"
  by (induction fs) (auto simp add: usable_def split: option.splits pyval.splits)

lemma first_usable_chosen:
  "first_usable fs d = Some n \<Longrightarrow>
   \<exists>i s. i < length fs \<and> map_of d (fs ! i) = Some (PStr s) \<and> n = strip s \<and>
         (\<forall>j<i. \<not> usable d (fs ! j))"
proof (induction fs)
  case Nil
  then show ?case by simp
next
  case (Cons f fs)
  show ?case
  proof (cases "usable d f")
    case True
    then obtain s where s: "map_of d f = Some (PStr s)" "strip s \<noteq> []"
      by (auto simp add: usable_def split: option.splits pyval.splits)
    with Cons.prems have "n = strip s" by simp
    with s have "0 < length (f # fs) \<and> map_of d ((f # fs) ! 0) = Some (PStr s) \<and> n = strip s \<and>
         (\<forall>j<0. \<not> usable d ((f # fs) ! j))" by simp
    then show ?thesis by blast
  next
    case False
    then have "first_usable fs d = Some n" using Cons.prems
      by (auto simp add: usable_def split: option.splits pyval.splits if_splits)
    then obtain i s where hyp: "i < length fs" "map_of d (fs ! i) = Some (PStr s)" "n = strip s"
      "\<forall>j<i. \<not> usable d (fs ! j)" using Cons.IH by blast
    have "\<forall>j<Suc i. \<not> usable d ((f # fs) ! j)"
    proof (intro allI impI)
      fix j assume "j < Suc i"
      then show "\<not> usable d ((f # fs) ! j)" using False hyp(4) by (cases j) auto
    qed
    with hyp have "Suc i < length (f # fs) \<and> map_of d ((f # fs) ! Suc i) = Some (PStr s) \<and>
       n = strip s \<and> (\<forall>j<Suc i. \<not> usable d ((f # fs) ! j))" by simp
    then show ?thesis by blast
  qed
qed

lemma last_dropWhile: "dropWhile P xs \<noteq> [] \<Longrightarrow> last (dropWhile P xs) = last xs"
  by (induction xs) (auto split: if_splits)

lemma strip_ends:
  assumes "strip s \<noteq> []"
  shows "\<not> isspace (hd (strip s))" and "\<not> isspace (last (strip s))"
proof -
  let ?ys = "dropWhile isspace s"
  let ?zs = "dropWhile isspace (rev ?ys)"
  have zs: "?zs \<noteq> []" using assms by (simp add: strip_def)
  then have ys: "?ys \<noteq> []" by (cases "dropWhile isspace s") simp_all
  have "last (strip s) = hd ?zs" using zs by (simp add: strip_def last_rev)
  then show "\<not> isspace (last (strip s))" using hd_dropWhile [OF zs] by simp
  have "hd (strip s) = last ?zs" using zs by (simp add: strip_def hd_rev)
  also have "\<dots> = last (rev ?ys)" using zs by (rule last_dropWhile)
  also have "\<dots> = hd ?ys" using ys by (simp add: last_rev)
  finally show "\<not> isspace (hd (strip s))" using hd_dropWhile [OF ys] by simp
qed

text \<open>
  C2. For a record appended to any input, \<open>extract_market_names\<close> adds the trimmed value
  of the first field, in the order \<open>question\<close>, \<open>title\<close>, \<open>name\<close>, \<open>description\<close>,
  \<open>market_slug\<close>, whose value is a string that is non-empty after trimming; a record with
  no such field adds no entry. A record with \<open>question = ""\<close> and \<open>title = "X"\<close> yields
  \<open>"X"\<close>, and one with a blank \<open>title\<close> and \<open>name = "Will it rain?"\<close> yields
  \<open>"Will it rain?"\<close>.
\<close>

theorem extract_market_names_first_usable_field:
  "(extract_market_names markets = Inr names \<and> i < length name_fields \<and>
      map_of d (name_fields ! i) = Some (PStr s) \<and> strip s \<noteq> [] \<and>
      (\<forall>j<i. \<not> usable d (name_fields ! j))
      \<longrightarrow> extract_market_names (markets @ [PDict d]) = Inr (names @ [strip s])) \<and>
   (extract_market_names markets = Inr names \<and> (\<forall>f\<in>set name_fields. \<not> usable d f)
      \<longrightarrow> extract_market_names (markets @ [PDict d]) = Inr names) \<and>
   extract_market_names [PDict [(str ''question'', PStr (str '''')), (str ''title'', PStr (str ''X''))]]
     = Inr [str ''X''] \<and>
   extract_market_names
     [PDict [(str ''title'', PStr (str ''  '')), (str ''name'', PStr (str ''Will it rain?''))]]
     = Inr [str ''Will it rain?'']"
proof (intro conjI impI)
  assume a: "extract_market_names markets = Inr names \<and> i < length name_fields \<and>
      map_of d (name_fields ! i) = Some (PStr s) \<and> strip s \<noteq> [] \<and>
      (\<forall>j<i. \<not> usable d (name_fields ! j))"
  then have "first_usable name_fields d = Some (strip s)"
    using first_usable_at [of i name_fields d s] by blast
  then show "extract_market_names (markets @ [PDict d]) = Inr (names @ [strip s])"
    using a by (simp add: extract_market_names_eq entry_def)
next
  assume a: "extract_market_names markets = Inr names \<and> (\<forall>f\<in>set name_fields. \<not> usable d f)"
  then have "first_usable name_fields d = None" by (simp add: first_usable_none)
  then show "extract_market_names (markets @ [PDict d]) = Inr names"
    using a by (simp add: extract_market_names_eq entry_def)
next
  show "extract_market_names [PDict [(str ''question'', PStr (str '''')), (str ''title'', PStr (str ''X''))]]
     = Inr [str ''X'']"
    by (simp add: extract_market_names_def isinstance_dict_def isinstance_str_def name_fields_def
        strip_def isspace_def str_def)
next
  show "extract_market_names
     [PDict [(str ''title'', PStr (str ''  '')), (str ''name'', PStr (str ''Will it rain?''))]]
     = Inr [str ''Will it rain?'']"
    by (simp add: extract_market_names_def isinstance_dict_def isinstance_str_def name_fields_def
        strip_def isspace_def str_def)
qed

theorem extract_market_names_first_usable_field_witness:
  "extract_market_names [] = Inr [] \<and> (2::nat) < length name_fields \<and>
   map_of [(str ''title'', PStr (str ''  '')), (str ''name'', PStr (str '' Will it rain? ''))]
     (name_fields ! 2) = Some (PStr (str '' Will it rain? '')) \<and>
   strip (str '' Will it rain? '') \<noteq> [] \<and>
   extract_market_names ([] @
     [PDict [(str ''title'', PStr (str ''  '')), (str ''name'', PStr (str '' Will it rain? ''))]])
     = Inr ([] @ [strip (str '' Will it rain? '')]) \<and>
   extract_market_names ([] @ [PDict [(str ''question'', PInt 3)]]) = Inr []"
proof -
  let ?d = "[(str ''title'', PStr (str ''  '')), (str ''name'', PStr (str '' Will it rain? ''))]"
  let ?s = "str '' Will it rain? ''"
  have h1: "extract_market_names [] = Inr []"
    by (simp add: extract_market_names_def)
  have h2: "(2::nat) < length name_fields"
    by (simp add: name_fields_def)
  have h3: "map_of ?d (name_fields ! 2) = Some (PStr ?s)"
    by (simp add: name_fields_def str_def)
  have h4: "strip ?s \<noteq> []"
    by (simp add: strip_def isspace_def str_def)
  have h5: "\<forall>j<2. \<not> usable ?d (name_fields ! j)"
    by (simp add: numeral_2_eq_2 All_less_Suc usable_def name_fields_def str_def strip_def isspace_def)
  have h6: "\<forall>f\<in>set name_fields. \<not> usable [(str ''question'', PInt 3)] f"
    by (simp add: usable_def name_fields_def str_def)
  from extract_market_names_first_usable_field [of "[]" "[]" 2 ?d ?s] h1 h2 h3 h4 h5
  have c1: "extract_market_names ([] @ [PDict ?d]) = Inr ([] @ [strip ?s])" by blast
  from extract_market_names_first_usable_field [of "[]" "[]" 0 "[(str ''question'', PInt 3)]" "[]"] h1 h6
  have c2: "extract_market_names ([] @ [PDict [(str ''question'', PInt 3)]]) = Inr []" by blast
  from h1 h2 h3 h4 c1 c2 show ?thesis by blast
qed

text \<open>
  C9. Every name returned by \<open>extract_market_names\<close> is the trimmed value of the field
  chosen for some record of the input: it is non-empty and neither starts nor ends with a
  whitespace code point, whatever whitespace surrounded the raw value.
\<close>

theorem extract_market_names_trimmed:
  assumes "extract_market_names markets = Inr names"
  shows "\<forall>n\<in>set names.
           n \<noteq> [] \<and> \<not> isspace (hd n) \<and> \<not> isspace (last n) \<and>
           (\<exists>d i s. PDict d \<in> set markets \<and> i < length name_fields \<and>
                    map_of d (name_fields ! i) = Some (PStr s) \<and>
                    (\<forall>j<i. \<not> usable d (name_fields ! j)) \<and> n = strip s)"
proof
  fix n assume "n \<in> set names"
  then have "n \<in> set (concat (map entry markets))"
    using assms by (simp add: extract_market_names_eq)
  then obtain market where m: "market \<in> set markets" "n \<in> set (entry market)" by auto
  then obtain d where d: "market = PDict d" "first_usable name_fields d = Some n"
    by (auto simp add: entry_def split: pyval.splits option.splits)
  from first_usable_chosen [OF d(2)] obtain i s where c: "i < length name_fields"
    "map_of d (name_fields ! i) = Some (PStr s)" "n = strip s"
    "\<forall>j<i. \<not> usable d (name_fields ! j)" by blast
  have ne: "n \<noteq> []" using d(2) by (rule first_usable_nonempty)
  then have "\<not> isspace (hd n)" "\<not> isspace (last n)" using strip_ends [of s] c(3) by simp_all
  moreover have "\<exists>d i s. PDict d \<in> set markets \<and> i < length name_fields \<and>
                    map_of d (name_fields ! i) = Some (PStr s) \<and>
                    (\<forall>j<i. \<not> usable d (name_fields ! j)) \<and> n = strip s"
    using m(1) d(1) c by blast
  ultimately show "n \<noteq> [] \<and> \<not> isspace (hd n) \<and> \<not> isspace (last n) \<and>
           (\<exists>d i s. PDict d \<in> set markets \<and> i < length name_fields \<and>
                    map_of d (name_fields ! i) = Some (PStr s) \<and>
                    (\<forall>j<i. \<not> usable d (name_fields ! j)) \<and> n = strip s)"
    using ne by blast
qed

theorem extract_market_names_trimmed_witness:
  "extract_market_names [PDict [(str ''title'', PStr (str ''  Rain?  ''))]] = Inr [str ''Rain?''] \<and>
   str ''Rain?'' \<noteq> [] \<and> \<not> isspace (hd (str ''Rain?'')) \<and> \<not> isspace (last (str ''Rain?''))"
proof -
  have e: "extract_market_names [PDict [(str ''title'', PStr (str ''  Rain?  ''))]]
      = Inr [str ''Rain?'']"
    by (simp add: extract_market_names_def isinstance_dict_def isinstance_str_def name_fields_def
        strip_def isspace_def str_def)
  from extract_market_names_trimmed [OF e] have "str ''Rain?'' \<noteq> [] \<and> \<not> isspace (hd (str ''Rain?'')) \<and>
      \<not> isspace (last (str ''Rain?''))" by simp
  with e show ?thesis by blast
qed

text \<open>
  C10. \<open>extract_market_names\<close> never raises: for every input list it returns a list of
  names, and an element that is not a dict contributes nothing, wherever it stands.
\<close>

theorem extract_market_names_total:
  "(\<exists>names. extract_market_names markets = Inr names) \<and>
   (\<not> isinstance_dict v \<longrightarrow>
      extract_market_names (xs @ v # ys) = extract_market_names (xs @ ys))"
proof -
  have "\<not> isinstance_dict v \<Longrightarrow> entry v = []"
    by (cases v) (simp_all add: entry_def isinstance_dict_def)
  then show ?thesis by (simp add: extract_market_names_eq)
qed

theorem extract_market_names_total_witness:
  "\<not> isinstance_dict (PList [PInt 1]) \<and>
   extract_market_names ([PStr (str ''a'')] @ PList [PInt 1] # [PDict [(str ''name'', PStr (str ''N''))]])
     = extract_market_names ([PStr (str ''a'')] @ [PDict [(str ''name'', PStr (str ''N''))]])"
proof -
  have h: "\<not> isinstance_dict (PList [PInt 1])" by (simp add: isinstance_dict_def)
  from extract_market_names_total [of "[]" "PList [PInt 1]" "[PStr (str ''a'')]" "[PDict [(str ''name'', PStr (str ''N''))]]"] h
  show ?thesis by blast
qed

section \<open>Properties of the paginator\<close>

lemma fetch_page_Continue:
  "fetch_page get st = (Continue, st') \<Longrightarrow> page_count st' = page_count st + 1"
  by (auto simp add: fetch_page_def on_exception_def Let_def
      split: prod.splits sum.splits pyval.splits option.splits if_splits)

lemma fetch_page_effect:
  assumes "fetch_page get st = (fl, st')"
  shows "requests st' = requests st @ [(cursor st, fst (get (client st) (cursor st)))]"
    and "all_markets st' = all_markets st @ page_records (fst (get (client st) (cursor st)))"
    and "client st' = snd (get (client st) (cursor st))"
  using assms
  by (auto simp add: fetch_page_def on_exception_def page_records_def Let_def
      split: prod.splits sum.splits pyval.splits option.splits if_splits)

lemma py_iter_Inl: "py_iter obj = Inl e \<Longrightarrow> e = Exception ''TypeError''"
  by (cases obj) auto

lemma fetch_page_Propagate:
  "fetch_page get st = (Propagate e, st') \<Longrightarrow>
   \<not> is_Exception e \<and> fst (get (client st) (cursor st)) = Inl e"
  by (auto simp add: fetch_page_def on_exception_def Let_def
      split: prod.splits sum.splits pyval.splits option.splits if_splits dest: py_iter_Inl)

lemma fetch_page_valid:
  assumes "get (client st) (cursor st) = (Inr response, c')" "valid_page response (cursor st)"
  shows "fst (fetch_page get st) = Continue"
  using assms
  by (auto simp add: fetch_page_def valid_page_def Let_def
      split: prod.splits sum.splits pyval.splits option.splits if_splits)

lemma fetch_loop_trace:
  "\<exists>new. requests (snd (fetch_loop get max_pages st)) = requests st @ new \<and>
         all_markets (snd (fetch_loop get max_pages st))
           = all_markets st @ concat (map (\<lambda>r. page_records (snd r)) new) \<and>
         length new \<le> nat (max_pages - page_count st)"
proof (induction get max_pages st rule: fetch_loop.induct)
  case (1 get max_pages st)
  show ?case
  proof (cases "page_count st < max_pages")
    case False
    then show ?thesis by (simp add: fetch_loop.simps [of get max_pages st])
  next
    case True
    obtain fl st' where fp: "fetch_page get st = (fl, st')" by (cases "fetch_page get st")
    let ?r = "(cursor st, fst (get (client st) (cursor st)))"
    note eff = fetch_page_effect [OF fp]
    show ?thesis
    proof (cases fl)
      case Continue
      from "1.IH" [OF True fp [symmetric] Continue]
      obtain new where new: "requests (snd (fetch_loop get max_pages st')) = requests st' @ new"
        "all_markets (snd (fetch_loop get max_pages st'))
           = all_markets st' @ concat (map (\<lambda>r. page_records (snd r)) new)"
        "length new \<le> nat (max_pages - page_count st')" by blast
      have pc: "page_count st' = page_count st + 1"
        using fp Continue fetch_page_Continue by blast
      have loop: "fetch_loop get max_pages st = fetch_loop get max_pages st'"
        using True fp Continue by (simp add: fetch_loop.simps [of get max_pages st])
      have "requests (snd (fetch_loop get max_pages st)) = requests st @ (?r # new)"
        using loop new(1) eff(1) by simp
      moreover have "all_markets (snd (fetch_loop get max_pages st))
           = all_markets st @ concat (map (\<lambda>r. page_records (snd r)) (?r # new))"
        using loop new(2) eff(2) by simp
      moreover have "length (?r # new) \<le> nat (max_pages - page_count st)"
        using new(3) pc True by simp
      ultimately show ?thesis by blast
    next
      case Break
      then have loop: "fetch_loop get max_pages st = (None, st')"
        using True fp by (simp add: fetch_loop.simps [of get max_pages st])
      have "requests (snd (fetch_loop get max_pages st)) = requests st @ [?r]"
        using loop eff(1) by simp
      moreover have "all_markets (snd (fetch_loop get max_pages st))
           = all_markets st @ concat (map (\<lambda>r. page_records (snd r)) [?r])"
        using loop eff(2) by simp
      moreover have "length [?r] \<le> nat (max_pages - page_count st)"
        using True by simp
      ultimately show ?thesis by blast
    next
      case (Propagate e)
      then have loop: "fetch_loop get max_pages st = (Some e, st')"
        using True fp by (simp add: fetch_loop.simps [of get max_pages st])
      have "requests (snd (fetch_loop get max_pages st)) = requests st @ [?r]"
        using loop eff(1) by simp
      moreover have "all_markets (snd (fetch_loop get max_pages st))
           = all_markets st @ concat (map (\<lambda>r. page_records (snd r)) [?r])"
        using loop eff(2) by simp
      moreover have "length [?r] \<le> nat (max_pages - page_count st)"
        using True by simp
      ultimately show ?thesis by blast
    qed
  qed
qed

lemma fetch_loop_no_Exception:
  "fst (fetch_loop get max_pages st) = Some e \<Longrightarrow> \<not> is_Exception e"
proof (induction get max_pages st rule: fetch_loop.induct)
  case (1 get max_pages st)
  show ?case
  proof (cases "page_count st < max_pages")
    case False
    then show ?thesis using "1.prems" by (simp add: fetch_loop.simps [of get max_pages st])
  next
    case True
    obtain fl st' where fp: "fetch_page get st = (fl, st')" by (cases "fetch_page get st")
    show ?thesis
    proof (cases fl)
      case Continue
      then have "fetch_loop get max_pages st = fetch_loop get max_pages st'"
        using True fp by (simp add: fetch_loop.simps [of get max_pages st])
      then show ?thesis using "1.IH" [OF True fp [symmetric] Continue] "1.prems" by simp
    next
      case Break
      then show ?thesis using True fp "1.prems"
        by (simp add: fetch_loop.simps [of get max_pages st])
    next
      case (Propagate e')
      then have "fetch_loop get max_pages st = (Some e', st')"
        using True fp by (simp add: fetch_loop.simps [of get max_pages st])
      then have "e' = e" using "1.prems" by simp
      then show ?thesis using fetch_page_Propagate fp Propagate by blast
    qed
  qed
qed

lemma fetch_loop_valid:
  assumes valid: "\<forall>s c. \<exists>response s'. get s c = (Inr response, s') \<and> valid_page response c"
  shows "fst (fetch_loop get max_pages st) = None \<and>
         length (requests (snd (fetch_loop get max_pages st)))
           = length (requests st) + nat (max_pages - page_count st)"
  using valid
proof (induction get max_pages st rule: fetch_loop.induct)
  case (1 get max_pages st)
  show ?case
  proof (cases "page_count st < max_pages")
    case False
    then show ?thesis by (simp add: fetch_loop.simps [of get max_pages st])
  next
    case True
    obtain fl st' where fp: "fetch_page get st = (fl, st')" by (cases "fetch_page get st")
    obtain response s' where "get (client st) (cursor st) = (Inr response, s')"
      "valid_page response (cursor st)" using "1.prems" by blast
    then have fl: "fl = Continue" using fetch_page_valid [of get st response s'] fp by simp
    have pc: "page_count st' = page_count st + 1"
      using fp fl fetch_page_Continue by blast
    have loop: "fetch_loop get max_pages st = fetch_loop get max_pages st'"
      using True fp fl by (simp add: fetch_loop.simps [of get max_pages st])
    have "length (requests st') = length (requests st) + 1"
      using fetch_page_effect(1) [OF fp] by simp
    then show ?thesis
      using "1.IH" [OF True fp [symmetric] fl "1.prems"] loop pc True by simp
  qed
qed

lemma fetch_page_fault:
  "get (client st) (cursor st) = (Inl (Exception cls), c') \<Longrightarrow>
   fetch_page get st
     = (Break, st\<lparr>client := c', requests := requests st @ [(cursor st, Inl (Exception cls))]\<rparr>)"
  by (simp add: fetch_page_def on_exception_def)

lemma fetch_page_malformed:
  "get (client st) (cursor st) = (Inr response, c') \<Longrightarrow> malformed response \<Longrightarrow>
   fetch_page get st
     = (Break, st\<lparr>client := c', requests := requests st @ [(cursor st, Inr response)]\<rparr>)"
  by (cases response) (simp_all add: fetch_page_def malformed_def)

lemma length_transcript: "length (transcript get n s c) = n"
  by (induction n arbitrary: s c) (auto split: prod.splits)

lemma fetch_page_Continue_cursor:
  "fetch_page get st = (Continue, st') \<Longrightarrow>
   cursor st' = next_cursor_of (fst (get (client st) (cursor st)))"
  by (auto simp add: fetch_page_def on_exception_def next_cursor_of_def Let_def
      split: prod.splits sum.splits pyval.splits option.splits if_splits)

lemma transcript_step:
  assumes "page_count st < max_pages"
  shows "transcript get (nat (max_pages - page_count st)) (client st) (cursor st)
    = (cursor st, fst (get (client st) (cursor st)))
      # transcript get (nat (max_pages - (page_count st + 1)))
          (snd (get (client st) (cursor st)))
          (next_cursor_of (fst (get (client st) (cursor st))))"
proof -
  have "nat (max_pages - page_count st) = Suc (nat (max_pages - (page_count st + 1)))"
    using assms by simp
  then show ?thesis by (simp add: case_prod_beta)
qed

lemma fetch_loop_prefix:
  "\<exists>k. requests (snd (fetch_loop get max_pages st))
     = requests st
       @ take k (transcript get (nat (max_pages - page_count st)) (client st) (cursor st))"
proof (induction get max_pages st rule: fetch_loop.induct)
  case (1 get max_pages st)
  show ?case
  proof (cases "page_count st < max_pages")
    case False
    then have "requests (snd (fetch_loop get max_pages st)) = requests st
       @ take 0 (transcript get (nat (max_pages - page_count st)) (client st) (cursor st))"
      by (simp add: fetch_loop.simps [of get max_pages st])
    then show ?thesis by blast
  next
    case True
    obtain fl st' where fp: "fetch_page get st = (fl, st')" by (cases "fetch_page get st")
    let ?r = "(cursor st, fst (get (client st) (cursor st)))"
    let ?T = "transcript get (nat (max_pages - page_count st)) (client st) (cursor st)"
    note eff = fetch_page_effect [OF fp]
    note step = transcript_step [OF True, of get]
    show ?thesis
    proof (cases "fl = Continue")
      case True2: True
      from "1.IH" [OF True fp [symmetric] True2]
      obtain k where k: "requests (snd (fetch_loop get max_pages st'))
        = requests st'
          @ take k (transcript get (nat (max_pages - page_count st')) (client st') (cursor st'))"
        by blast
      have pc: "page_count st' = page_count st + 1"
        using fp True2 fetch_page_Continue by blast
      have cu: "cursor st' = next_cursor_of (fst (get (client st) (cursor st)))"
        using fp True2 fetch_page_Continue_cursor by blast
      have loop: "fetch_loop get max_pages st = fetch_loop get max_pages st'"
        using True fp True2 by (simp add: fetch_loop.simps [of get max_pages st])
      have "requests (snd (fetch_loop get max_pages st)) = requests st @ take (Suc k) ?T"
        using loop k eff(1) eff(3) pc cu step by simp
      then show ?thesis by blast
    next
      case False
      then have "snd (fetch_loop get max_pages st) = st'"
        using True fp by (cases fl) (simp_all add: fetch_loop.simps [of get max_pages st])
      then have "requests (snd (fetch_loop get max_pages st)) = requests st @ take (Suc 0) ?T"
        using eff(1) step by simp
      then show ?thesis by blast
    qed
  qed
qed

lemma fetch_loop_stops:
  "i < nat (max_pages - page_count st) \<Longrightarrow>
   \<forall>j<i. continues (transcript get (nat (max_pages - page_count st)) (client st) (cursor st) ! j) \<Longrightarrow>
   fault_or_malformed
     (snd (transcript get (nat (max_pages - page_count st)) (client st) (cursor st) ! i)) \<Longrightarrow>
   \<exists>st'. fetch_loop get max_pages st = (None, st') \<and>
     requests st' = requests st
       @ take (Suc i) (transcript get (nat (max_pages - page_count st)) (client st) (cursor st)) \<and>
     all_markets st' = all_markets st
       @ concat (map (\<lambda>r. page_records (snd r))
           (take i (transcript get (nat (max_pages - page_count st)) (client st) (cursor st))))"
proof (induction i arbitrary: st)
  case 0
  let ?o = "fst (get (client st) (cursor st))"
  let ?T = "transcript get (nat (max_pages - page_count st)) (client st) (cursor st)"
  have lt: "page_count st < max_pages" using "0.prems"(1) by simp
  note step = transcript_step [OF lt, of get]
  have fm: "fault_or_malformed ?o" using "0.prems"(3) step by simp
  obtain c' where g: "get (client st) (cursor st) = (?o, c')"
    by (cases "get (client st) (cursor st)") simp
  have "fetch_page get st
      = (Break, st\<lparr>client := c', requests := requests st @ [(cursor st, ?o)]\<rparr>)"
  proof (cases ?o)
    case (Inl e)
    then obtain cls where "e = Exception cls" using fm
      by (cases e) (simp_all add: fault_or_malformed_def)
    then show ?thesis using Inl g fetch_page_fault [of get st cls c'] by simp
  next
    case (Inr response)
    then have "malformed response" using fm by (simp add: fault_or_malformed_def)
    then show ?thesis using Inr g fetch_page_malformed [of get st response c'] by simp
  qed
  then have "fetch_loop get max_pages st
      = (None, st\<lparr>client := c', requests := requests st @ [(cursor st, ?o)]\<rparr>)"
    using lt by (simp add: fetch_loop.simps [of get max_pages st])
  then show ?case using step by simp
next
  case (Suc i)
  let ?o = "fst (get (client st) (cursor st))"
  let ?T = "transcript get (nat (max_pages - page_count st)) (client st) (cursor st)"
  have lt: "page_count st < max_pages" using Suc.prems(1) by simp
  note step = transcript_step [OF lt, of get]
  have "continues (?T ! 0)" using Suc.prems(2) by simp
  then obtain response where r: "?o = Inr response" "valid_page response (cursor st)"
    using step by (auto simp add: continues_def split: sum.splits)
  obtain c' where g: "get (client st) (cursor st) = (Inr response, c')"
    using r(1) by (cases "get (client st) (cursor st)") simp
  obtain fl st1 where fp: "fetch_page get st = (fl, st1)" by (cases "fetch_page get st")
  have fl: "fl = Continue" using fetch_page_valid [of get st response c'] g r(2) fp by simp
  note eff = fetch_page_effect [OF fp]
  have pc: "page_count st1 = page_count st + 1" using fp fl fetch_page_Continue by blast
  have cu: "cursor st1 = next_cursor_of ?o" using fp fl fetch_page_Continue_cursor by blast
  let ?T1 = "transcript get (nat (max_pages - page_count st1)) (client st1) (cursor st1)"
  have T: "?T = (cursor st, ?o) # ?T1" using step pc cu eff(3) by simp
  have p1: "i < nat (max_pages - page_count st1)" using Suc.prems(1) pc by simp
  have p2: "\<forall>j<i. continues (?T1 ! j)"
  proof (intro allI impI)
    fix j assume "j < i"
    then have "continues (?T ! Suc j)" using Suc.prems(2) by simp
    then show "continues (?T1 ! j)" using T by simp
  qed
  have p3: "fault_or_malformed (snd (?T1 ! i))" using Suc.prems(3) T by simp
  from Suc.IH [OF p1 p2 p3] obtain st' where st': "fetch_loop get max_pages st1 = (None, st')"
    "requests st' = requests st1 @ take (Suc i) ?T1"
    "all_markets st' = all_markets st1 @ concat (map (\<lambda>r. page_records (snd r)) (take i ?T1))"
    by blast
  have loop: "fetch_loop get max_pages st = fetch_loop get max_pages st1"
    using lt fp fl by (simp add: fetch_loop.simps [of get max_pages st])
  have "requests st' = requests st @ take (Suc (Suc i)) ?T"
    using st'(2) eff(1) T by simp
  moreover have "all_markets st' = all_markets st
       @ concat (map (\<lambda>r. page_records (snd r)) (take (Suc i) ?T))"
    using st'(3) eff(2) T by simp
  ultimately show ?case using loop st'(1) by simp
qed

lemma fetch_loop_valid_transcript:
  assumes valid: "\<forall>s c. \<exists>response s'. get s c = (Inr response, s') \<and> valid_page response c"
  shows "requests (snd (fetch_loop get max_pages st))
     = requests st @ transcript get (nat (max_pages - page_count st)) (client st) (cursor st)"
proof -
  let ?T = "transcript get (nat (max_pages - page_count st)) (client st) (cursor st)"
  obtain k where k: "requests (snd (fetch_loop get max_pages st)) = requests st @ take k ?T"
    using fetch_loop_prefix by blast
  have "length (requests (snd (fetch_loop get max_pages st)))
      = length (requests st) + nat (max_pages - page_count st)"
    using fetch_loop_valid [OF valid] by blast
  then have "length (take k ?T) = length ?T" using k by (simp add: length_transcript)
  then have "take k ?T = ?T" by (metis length_take min.absorb_iff1 min.cobounded1 take_all order_refl)
  then show ?thesis using k by simp
qed

lemma fetch_all_markets_stops_after_pages:
  assumes a: "new_client lib api_url = Inr c \<and> i < nat max_pages \<and>
      (\<forall>j<i. continues (session lib max_pages c ! j)) \<and>
      fault_or_malformed (snd (session lib max_pages c ! i))"
  shows "fetch_all_markets lib api_url max_pages
      = (Inr (concat (map (\<lambda>r. page_records (snd r)) (take i (session lib max_pages c)))),
         take (Suc i) (session lib max_pages c))"
proof -
  let ?st = "\<lparr>all_markets = [], cursor = PStr (str ''MA==''), page_count = 0, client = c,
      requests = []\<rparr>"
  have T: "transcript (get_markets lib) (nat (max_pages - page_count ?st)) (client ?st) (cursor ?st)
      = session lib max_pages c" by (simp add: session_def)
  have p1: "i < nat (max_pages - page_count ?st)" using a by simp
  have p2: "\<forall>j<i. continues (transcript (get_markets lib) (nat (max_pages - page_count ?st))
      (client ?st) (cursor ?st) ! j)" using a T by simp
  have p3: "fault_or_malformed (snd (transcript (get_markets lib)
      (nat (max_pages - page_count ?st)) (client ?st) (cursor ?st) ! i))" using a T by simp
  from fetch_loop_stops [OF p1 p2 p3] obtain st' where
    st': "fetch_loop (get_markets lib) max_pages ?st = (None, st')"
      "requests st' = take (Suc i) (session lib max_pages c)"
      "all_markets st'
        = concat (map (\<lambda>r. page_records (snd r)) (take i (session lib max_pages c)))"
    using T by auto
  show ?thesis using a st' by (simp add: fetch_all_markets_def)
qed

lemma flaky_client_run:
  "fetch_all_markets flaky_client (str ''u'') 100
     = (Inr [PInt 1],
        [(PStr (str ''MA==''), Inr flaky_page),
         (PStr (str ''B''), Inl (Exception ''ConnectionError''))])"
  by (simp add: fetch_all_markets_def flaky_client_def flaky_page_def fetch_loop.simps
      fetch_page_def on_exception_def str_def Let_def)

lemma fetch_all_markets_requests_prefix:
  assumes "new_client lib api_url = Inr c0"
  shows "\<exists>k. snd (fetch_all_markets lib api_url max_pages) = take k (session lib max_pages c0)"
proof -
  let ?st = "\<lparr>all_markets = [], cursor = PStr (str ''MA==''), page_count = 0, client = c0,
      requests = []\<rparr>"
  obtain k where "requests (snd (fetch_loop (get_markets lib) max_pages ?st))
     = requests ?st @ take k (transcript (get_markets lib) (nat (max_pages - page_count ?st))
         (client ?st) (cursor ?st))"
    using fetch_loop_prefix [of "get_markets lib" max_pages ?st] by blast
  then have "requests (snd (fetch_loop (get_markets lib) max_pages ?st))
     = take k (session lib max_pages c0)" by (simp add: session_def)
  then have "snd (fetch_all_markets lib api_url max_pages) = take k (session lib max_pages c0)"
    using assms by (cases "fetch_loop (get_markets lib) max_pages ?st")
      (auto simp add: fetch_all_markets_def split: option.splits)
  then show ?thesis by blast
qed

lemma fetch_all_markets_valid_session:
  assumes a: "(\<forall>s c. \<exists>response s'. get_markets lib s c = (Inr response, s') \<and>
      valid_page response c) \<and> new_client lib api_url = Inr c0"
  shows "fetch_all_markets lib api_url max_pages
      = (Inr (concat (map (\<lambda>r. page_records (snd r)) (session lib max_pages c0))),
         session lib max_pages c0) \<and>
    length (session lib max_pages c0) = nat max_pages"
proof -
  let ?st = "\<lparr>all_markets = [], cursor = PStr (str ''MA==''), page_count = 0, client = c0,
      requests = []\<rparr>"
  let ?fin = "snd (fetch_loop (get_markets lib) max_pages ?st)"
  from a have valid: "\<forall>s c. \<exists>response s'. get_markets lib s c = (Inr response, s') \<and>
      valid_page response c" by blast
  have none: "fst (fetch_loop (get_markets lib) max_pages ?st) = None"
    using fetch_loop_valid [OF valid, of max_pages ?st] by blast
  have reqs: "requests ?fin = session lib max_pages c0"
    using fetch_loop_valid_transcript [OF valid, of max_pages ?st] by (simp add: session_def)
  obtain new where "requests ?fin = requests ?st @ new"
    "all_markets ?fin = all_markets ?st @ concat (map (\<lambda>r. page_records (snd r)) new)"
    using fetch_loop_trace [of "get_markets lib" max_pages ?st] by blast
  then have recs: "all_markets ?fin
      = concat (map (\<lambda>r. page_records (snd r)) (session lib max_pages c0))"
    using reqs by simp
  have "fetch_all_markets lib api_url max_pages = (Inr (all_markets ?fin), requests ?fin)"
    using a none by (cases "fetch_loop (get_markets lib) max_pages ?st")
      (simp add: fetch_all_markets_def)
  then show ?thesis using recs reqs by (simp add: session_def length_transcript)
qed

lemma endless_client_run:
  "fetch_all_markets endless_client (str ''u'') 3
     = (Inr [PDict [(str ''question'', PStr (str ''Q''))],
             PDict [(str ''question'', PStr (str ''Q''))],
             PDict [(str ''question'', PStr (str ''Q''))]],
        [(PStr (str ''MA==''), Inr (endless_page (PStr (str ''MA=='')))),
         (PStr (str ''MA==x''), Inr (endless_page (PStr (str ''MA==x'')))),
         (PStr (str ''MA==xx''), Inr (endless_page (PStr (str ''MA==xx''))))])"
  by (simp add: fetch_all_markets_def endless_client_def endless_page_def fetch_loop.simps
      fetch_page_def str_def Let_def)

lemma flaky_session:
  "session flaky_client 2 ()
     = [(PStr (str ''MA==''), Inr flaky_page),
        (PStr (str ''B''), Inl (Exception ''ConnectionError''))]"
  by (simp add: session_def numeral_2_eq_2 flaky_client_def flaky_page_def next_cursor_of_def
      str_def)

lemma endless_session:
  "session endless_client 3 ()
     = [(PStr (str ''MA==''), Inr (endless_page (PStr (str ''MA=='')))),
        (PStr (str ''MA==x''), Inr (endless_page (PStr (str ''MA==x'')))),
        (PStr (str ''MA==xx''), Inr (endless_page (PStr (str ''MA==xx''))))]"
  by (simp add: session_def numeral_3_eq_3 endless_client_def endless_page_def
      next_cursor_of_def str_def)

text \<open>
  C3. When the call for a page raises an exception derived from \<open>Exception\<close>, or returns a
  malformed response, the loop stops at once and returns the records accumulated so far,
  with nothing raised. For \<open>fetch_all_markets\<close>: no such exception ever leaves it once the
  client is built; when the first response is malformed the result is the empty list; and
  when \<open>i\<close> pages have been fetched and the next call fails or answers with a malformed
  response, the result is exactly the records of those \<open>i\<close> pages, in order, and that call
  is the last request made. A client that answers once with one record and then fails
  yields that record.
\<close>

theorem fetch_stops_on_fault_or_malformed_page:
  "(page_count st < max_pages \<and> get (client st) (cursor st) = (outcome, c') \<and>
      (outcome = Inl (Exception cls) \<or> (\<exists>response. outcome = Inr response \<and> malformed response))
      \<longrightarrow> fetch_loop get max_pages st
            = (None, st\<lparr>client := c', requests := requests st @ [(cursor st, outcome)]\<rparr>)) \<and>
   (new_client lib api_url = Inr c \<longrightarrow>
      fst (fetch_all_markets lib api_url max_pages) \<noteq> Inl (Exception cls)) \<and>
   (new_client lib api_url = Inr c \<and> 0 < max_pages \<and>
      get_markets lib c (PStr (str ''MA=='')) = (Inr response, c'') \<and> malformed response
      \<longrightarrow> fetch_all_markets lib api_url max_pages
            = (Inr [], [(PStr (str ''MA==''), Inr response)])) \<and>
   (new_client lib api_url = Inr c \<and> i < nat max_pages \<and>
      (\<forall>j<i. continues (session lib max_pages c ! j)) \<and>
      fault_or_malformed (snd (session lib max_pages c ! i))
      \<longrightarrow> fetch_all_markets lib api_url max_pages
            = (Inr (concat (map (\<lambda>r. page_records (snd r)) (take i (session lib max_pages c)))),
               take (Suc i) (session lib max_pages c))) \<and>
   fetch_all_markets flaky_client (str ''u'') 100
     = (Inr [PInt 1],
        [(PStr (str ''MA==''), Inr flaky_page),
         (PStr (str ''B''), Inl (Exception ''ConnectionError''))])"
proof (intro conjI impI)
  assume a: "page_count st < max_pages \<and> get (client st) (cursor st) = (outcome, c') \<and>
      (outcome = Inl (Exception cls) \<or> (\<exists>response. outcome = Inr response \<and> malformed response))"
  then have "fetch_page get st
      = (Break, st\<lparr>client := c', requests := requests st @ [(cursor st, outcome)]\<rparr>)"
    using fetch_page_fault [of get st cls c'] fetch_page_malformed [of get st _ c'] by blast
  then show "fetch_loop get max_pages st
      = (None, st\<lparr>client := c', requests := requests st @ [(cursor st, outcome)]\<rparr>)"
    using a by (simp add: fetch_loop.simps [of get max_pages st])
next
  assume a: "new_client lib api_url = Inr c"
  show "fst (fetch_all_markets lib api_url max_pages) \<noteq> Inl (Exception cls)"
  proof
    assume b: "fst (fetch_all_markets lib api_url max_pages) = Inl (Exception cls)"
    obtain r st where l: "fetch_loop (get_markets lib) max_pages
        \<lparr>all_markets = [], cursor = PStr (str ''MA==''), page_count = 0, client = c, requests = []\<rparr>
        = (r, st)" by (cases "fetch_loop (get_markets lib) max_pages
        \<lparr>all_markets = [], cursor = PStr (str ''MA==''), page_count = 0, client = c, requests = []\<rparr>")
    then have "r = Some (Exception cls)" using a b
      by (cases r) (simp_all add: fetch_all_markets_def)
    then have "\<not> is_Exception (Exception cls)"
      using fetch_loop_no_Exception [of "get_markets lib" max_pages _ "Exception cls"] l
      by (metis fst_conv)
    then show False by simp
  qed
next
  assume a: "new_client lib api_url = Inr c \<and> 0 < max_pages \<and>
      get_markets lib c (PStr (str ''MA=='')) = (Inr response, c'') \<and> malformed response"
  let ?st = "\<lparr>all_markets = [], cursor = PStr (str ''MA==''), page_count = 0, client = c,
      requests = []\<rparr>"
  have "fetch_page (get_markets lib) ?st
      = (Break, ?st\<lparr>client := c'', requests := [(PStr (str ''MA==''), Inr response)]\<rparr>)"
    using a fetch_page_malformed [of "get_markets lib" ?st response c''] by simp
  then have "fetch_loop (get_markets lib) max_pages ?st
      = (None, ?st\<lparr>client := c'', requests := [(PStr (str ''MA==''), Inr response)]\<rparr>)"
    using a by (simp add: fetch_loop.simps [of "get_markets lib" max_pages ?st])
  then show "fetch_all_markets lib api_url max_pages
      = (Inr [], [(PStr (str ''MA==''), Inr response)])"
    using a by (simp add: fetch_all_markets_def)
next
  assume "new_client lib api_url = Inr c \<and> i < nat max_pages \<and>
      (\<forall>j<i. continues (session lib max_pages c ! j)) \<and>
      fault_or_malformed (snd (session lib max_pages c ! i))"
  then show "fetch_all_markets lib api_url max_pages
      = (Inr (concat (map (\<lambda>r. page_records (snd r)) (take i (session lib max_pages c)))),
         take (Suc i) (session lib max_pages c))"
    by (rule fetch_all_markets_stops_after_pages)
next
  show "fetch_all_markets flaky_client (str ''u'') 100
     = (Inr [PInt 1],
        [(PStr (str ''MA==''), Inr flaky_page),
         (PStr (str ''B''), Inl (Exception ''ConnectionError''))])"
    by (rule flaky_client_run)
qed

theorem fetch_stops_on_fault_or_malformed_page_witness:
  "get_markets failing_client () (PStr (str ''B'')) = (Inl (Exception ''ConnectionError''), ()) \<and>
   fetch_loop (get_markets failing_client) 100
     \<lparr>all_markets = [PInt 1], cursor = PStr (str ''B''), page_count = 1, client = (),
      requests = []\<rparr>
     = (None, \<lparr>all_markets = [PInt 1], cursor = PStr (str ''B''), page_count = 1, client = (),
         requests = [(PStr (str ''B''), Inl (Exception ''ConnectionError''))]\<rparr>) \<and>
   fst (fetch_all_markets failing_client (str ''u'') 100) \<noteq> Inl (Exception ''ConnectionError'') \<and>
   malformed (PDict [(str ''error'', PStr (str ''bad request''))]) \<and>
   fetch_all_markets malformed_client (str ''u'') 100
     = (Inr [], [(PStr (str ''MA==''), Inr (PDict [(str ''error'', PStr (str ''bad request''))]))]) \<and>
   continues (PStr (str ''MA==''), Inr flaky_page) \<and>
   fault_or_malformed (Inl (Exception ''ConnectionError'')) \<and>
   fetch_all_markets flaky_client (str ''u'') 2
     = (Inr [PInt 1],
        [(PStr (str ''MA==''), Inr flaky_page),
         (PStr (str ''B''), Inl (Exception ''ConnectionError''))])"
proof -
  let ?st = "\<lparr>all_markets = [PInt 1], cursor = PStr (str ''B''), page_count = 1, client = (),
      requests = []\<rparr>"
  let ?bad = "PDict [(str ''error'', PStr (str ''bad request''))]"
  have h1: "page_count ?st < 100" by simp
  have h2: "get_markets failing_client (client ?st) (cursor ?st)
      = (Inl (Exception ''ConnectionError''), ())"
    by (simp add: failing_client_def)
  have h3: "new_client failing_client (str ''u'') = Inr ()" by (simp add: failing_client_def)
  have h4: "new_client malformed_client (str ''u'') = Inr ()" by (simp add: malformed_client_def)
  have h5: "get_markets malformed_client () (PStr (str ''MA=='')) = (Inr ?bad, ())"
    by (simp add: malformed_client_def)
  have h6: "malformed ?bad" by (simp add: malformed_def str_def)
  have h7: "(0::int) < 100" by simp
  note t1 = fetch_stops_on_fault_or_malformed_page [where st = ?st and max_pages = 100
      and get = "get_markets failing_client"
      and outcome = "Inl (Exception ''ConnectionError'')" and c' = "()"
      and cls = "''ConnectionError''" and lib = failing_client and api_url = "str ''u''"
      and c = "()" and response = ?bad and c'' = "()" and i = 0]
  note t2 = fetch_stops_on_fault_or_malformed_page [where st = ?st and max_pages = 100
      and get = "get_markets failing_client"
      and outcome = "Inl (Exception ''ConnectionError'')" and c' = "()"
      and cls = "''ConnectionError''" and lib = malformed_client and api_url = "str ''u''"
      and c = "()" and response = ?bad and c'' = "()" and i = 0]
  have c1: "fetch_loop (get_markets failing_client) 100 ?st
      = (None, ?st\<lparr>client := (), requests := requests ?st
           @ [(cursor ?st, Inl (Exception ''ConnectionError''))]\<rparr>)"
    by (rule mp [OF conjunct1 [OF t1]]) (intro conjI h1 h2 disjI1 refl)
  have c2: "fst (fetch_all_markets failing_client (str ''u'') 100)
      \<noteq> Inl (Exception ''ConnectionError'')"
    by (rule mp [OF conjunct1 [OF conjunct2 [OF t1]] h3])
  have c3: "fetch_all_markets malformed_client (str ''u'') 100
      = (Inr [], [(PStr (str ''MA==''), Inr ?bad)])"
    by (rule mp [OF conjunct1 [OF conjunct2 [OF conjunct2 [OF t2]]]]) (intro conjI h4 h7 h5 h6)
  let ?T = "session flaky_client 2 ()"
  let ?r0 = "(PStr (str ''MA==''), Inr flaky_page) :: pyval \<times> (exc + pyval)"
  let ?r1 = "(PStr (str ''B''), Inl (Exception ''ConnectionError'')) :: pyval \<times> (exc + pyval)"
  have T: "?T = [?r0, ?r1]" by (rule flaky_session)
  have k0: "continues ?r0"
    by (simp add: continues_def valid_page_def flaky_page_def str_def)
  have k1: "fault_or_malformed (snd ?r1)" by (simp add: fault_or_malformed_def)
  have g1: "new_client flaky_client (str ''u'') = Inr ()" by (simp add: flaky_client_def)
  have g2: "(1::nat) < nat 2" by simp
  have g3: "\<forall>j<1. continues (?T ! j)" using k0 by (simp add: T)
  have g4: "fault_or_malformed (snd (?T ! 1))" using k1 by (simp add: T)
  note t3 = fetch_stops_on_fault_or_malformed_page [where st = ?st and max_pages = 2
      and get = "get_markets failing_client"
      and outcome = "Inl (Exception ''ConnectionError'')" and c' = "()"
      and cls = "''ConnectionError''" and lib = flaky_client and api_url = "str ''u''"
      and c = "()" and response = ?bad and c'' = "()" and i = 1]
  have "fetch_all_markets flaky_client (str ''u'') 2
      = (Inr (concat (map (\<lambda>r. page_records (snd r)) (take 1 ?T))), take (Suc 1) ?T)"
    by (rule mp [OF conjunct1 [OF conjunct2 [OF conjunct2 [OF conjunct2 [OF t3]]]]])
      (intro conjI g1 g2 g3 g4)
  moreover have "page_records (snd ?r0) = [PInt 1]"
    by (simp add: page_records_def flaky_page_def str_def)
  ultimately have c4: "fetch_all_markets flaky_client (str ''u'') 2 = (Inr [PInt 1], [?r0, ?r1])"
    by (simp add: T)
  have c1': "fetch_loop (get_markets failing_client) 100 ?st
      = (None, \<lparr>all_markets = [PInt 1], cursor = PStr (str ''B''), page_count = 1, client = (),
         requests = [(PStr (str ''B''), Inl (Exception ''ConnectionError''))]\<rparr>)"
    using c1 by simp
  have h2': "get_markets failing_client () (PStr (str ''B''))
      = (Inl (Exception ''ConnectionError''), ())" using h2 by simp
  have k1': "fault_or_malformed (Inl (Exception ''ConnectionError''))" using k1 by simp
  from h2' c1' c2 h6 c3 k0 k1' c4 show ?thesis by (intro conjI)
qed

text \<open>
  C4. \<open>fetch_all_markets\<close> returns after at most \<open>max_pages\<close> requests (none when
  \<open>max_pages\<close> is not positive), and the requests it made are the first ones of the
  exchange that \<open>max_pages\<close> successive calls of the client produce. With a client whose
  every answer is a well-formed page with a fresh, non-empty cursor it makes exactly those
  \<open>max_pages\<close> calls and returns the records of all of them; the client that always hands
  out a fresh cursor is asked three times under a cap of three, each time with the cursor
  of the answer before.
\<close>

theorem fetch_all_markets_page_cap:
  "(\<exists>outcome reqs. fetch_all_markets lib api_url max_pages = (outcome, reqs) \<and>
      length reqs \<le> nat max_pages) \<and>
   (new_client lib api_url = Inr cl \<longrightarrow>
      (\<exists>k. snd (fetch_all_markets lib api_url max_pages) = take k (session lib max_pages cl))) \<and>
   ((\<forall>s c. \<exists>response s'. get_markets lib s c = (Inr response, s') \<and> valid_page response c) \<and>
    new_client lib api_url = Inr cl
      \<longrightarrow> fetch_all_markets lib api_url max_pages
            = (Inr (concat (map (\<lambda>r. page_records (snd r)) (session lib max_pages cl))),
               session lib max_pages cl) \<and>
          length (session lib max_pages cl) = nat max_pages) \<and>
   fetch_all_markets endless_client (str ''u'') 3
     = (Inr [PDict [(str ''question'', PStr (str ''Q''))],
             PDict [(str ''question'', PStr (str ''Q''))],
             PDict [(str ''question'', PStr (str ''Q''))]],
        [(PStr (str ''MA==''), Inr (endless_page (PStr (str ''MA=='')))),
         (PStr (str ''MA==x''), Inr (endless_page (PStr (str ''MA==x'')))),
         (PStr (str ''MA==xx''), Inr (endless_page (PStr (str ''MA==xx''))))])"
proof (intro conjI impI)
  show "\<exists>outcome reqs. fetch_all_markets lib api_url max_pages = (outcome, reqs) \<and>
      length reqs \<le> nat max_pages"
  proof (cases "new_client lib api_url")
    case (Inl e)
    then show ?thesis by (simp add: fetch_all_markets_def)
  next
    case (Inr c)
    let ?st = "\<lparr>all_markets = [], cursor = PStr (str ''MA==''), page_count = 0, client = c,
      requests = []\<rparr>"
    obtain new where "requests (snd (fetch_loop (get_markets lib) max_pages ?st))
        = requests ?st @ new" "length new \<le> nat (max_pages - page_count ?st)"
      using fetch_loop_trace [of "get_markets lib" max_pages ?st] by blast
    then have "length (requests (snd (fetch_loop (get_markets lib) max_pages ?st)))
        \<le> nat max_pages" by simp
    then show ?thesis using Inr
      by (cases "fetch_loop (get_markets lib) max_pages ?st")
        (auto simp add: fetch_all_markets_def split: option.splits)
  qed
next
  assume "new_client lib api_url = Inr cl"
  then show "\<exists>k. snd (fetch_all_markets lib api_url max_pages) = take k (session lib max_pages cl)"
    by (rule fetch_all_markets_requests_prefix)
next
  assume a: "(\<forall>s c. \<exists>response s'. get_markets lib s c = (Inr response, s') \<and>
      valid_page response c) \<and> new_client lib api_url = Inr cl"
  show "fetch_all_markets lib api_url max_pages
      = (Inr (concat (map (\<lambda>r. page_records (snd r)) (session lib max_pages cl))),
         session lib max_pages cl)"
    using fetch_all_markets_valid_session [OF a] by (rule conjunct1)
  show "length (session lib max_pages cl) = nat max_pages"
    using fetch_all_markets_valid_session [OF a] by (rule conjunct2)
next
  show "fetch_all_markets endless_client (str ''u'') 3
     = (Inr [PDict [(str ''question'', PStr (str ''Q''))],
             PDict [(str ''question'', PStr (str ''Q''))],
             PDict [(str ''question'', PStr (str ''Q''))]],
        [(PStr (str ''MA==''), Inr (endless_page (PStr (str ''MA=='')))),
         (PStr (str ''MA==x''), Inr (endless_page (PStr (str ''MA==x'')))),
         (PStr (str ''MA==xx''), Inr (endless_page (PStr (str ''MA==xx''))))])"
    by (rule endless_client_run)
qed

lemma endless_client_valid:
  "\<exists>response s'. get_markets endless_client s c = (Inr response, s') \<and> valid_page response c"
  by (cases c) (simp_all add: endless_client_def endless_page_def valid_page_def str_def)

theorem fetch_all_markets_page_cap_witness:
  "(\<forall>s c. \<exists>response s'. get_markets endless_client s c = (Inr response, s') \<and>
      valid_page response c) \<and>
   new_client endless_client (str ''u'') = Inr () \<and>
   fetch_all_markets endless_client (str ''u'') 3
     = (Inr [PDict [(str ''question'', PStr (str ''Q''))],
             PDict [(str ''question'', PStr (str ''Q''))],
             PDict [(str ''question'', PStr (str ''Q''))]],
        [(PStr (str ''MA==''), Inr (endless_page (PStr (str ''MA=='')))),
         (PStr (str ''MA==x''), Inr (endless_page (PStr (str ''MA==x'')))),
         (PStr (str ''MA==xx''), Inr (endless_page (PStr (str ''MA==xx''))))]) \<and>
   length (session endless_client 3 ()) = 3"
proof -
  have h1: "\<forall>s c. \<exists>response s'. get_markets endless_client s c = (Inr response, s') \<and>
      valid_page response c" using endless_client_valid by blast
  have h2: "new_client endless_client (str ''u'') = Inr ()" by (simp add: endless_client_def)
  have pr: "\<And>c. page_records (Inr (endless_page c)) = [PDict [(str ''question'', PStr (str ''Q''))]]"
    by (simp add: page_records_def endless_page_def str_def)
  note t = fetch_all_markets_page_cap [where lib = endless_client and api_url = "str ''u''"
      and max_pages = 3 and cl = "()"]
  have "fetch_all_markets endless_client (str ''u'') 3
      = (Inr (concat (map (\<lambda>r. page_records (snd r)) (session endless_client 3 ()))),
         session endless_client 3 ()) \<and>
    length (session endless_client 3 ()) = nat 3"
    by (rule mp [OF conjunct1 [OF conjunct2 [OF conjunct2 [OF t]]]]) (intro conjI h1 h2)
  then show ?thesis using h1 h2 by (simp add: endless_session pr)
qed



text \<open>
  C6. The list returned by \<open>fetch_all_markets\<close> is the concatenation, in request order, of
  the records of the pages fetched, so its length is the sum of the page lengths; the
  two-page scenario yields its three records in order after two requests.
\<close>

theorem fetch_all_markets_concat:
  "(fetch_all_markets lib api_url max_pages = (Inr rs, reqs) \<longrightarrow>
      rs = concat (map (\<lambda>r. page_records (snd r)) reqs) \<and>
      length rs = sum_list (map (\<lambda>r. length (page_records (snd r))) reqs)) \<and>
   fetch_all_markets scenario_client (str ''https://clob.polymarket.com'') 100 =
    (Inr [PDict [(str ''question'', PStr (str ''one''))],
          PDict [(str ''question'', PStr (str ''two''))],
          PDict [(str ''question'', PStr (str ''three''))]],
     [(PStr (str ''MA==''), Inr page1), (PStr (str ''B''), Inr page2)])"
proof (intro conjI impI)
  assume a: "fetch_all_markets lib api_url max_pages = (Inr rs, reqs)"
  then obtain c where c: "new_client lib api_url = Inr c"
    by (cases "new_client lib api_url") (simp_all add: fetch_all_markets_def)
  let ?st = "\<lparr>all_markets = [], cursor = PStr (str ''MA==''), page_count = 0, client = c,
      requests = []\<rparr>"
  obtain new where new: "requests (snd (fetch_loop (get_markets lib) max_pages ?st))
        = requests ?st @ new"
    "all_markets (snd (fetch_loop (get_markets lib) max_pages ?st))
        = all_markets ?st @ concat (map (\<lambda>r. page_records (snd r)) new)"
    using fetch_loop_trace [of "get_markets lib" max_pages ?st] by blast
  have "rs = all_markets (snd (fetch_loop (get_markets lib) max_pages ?st)) \<and>
        reqs = requests (snd (fetch_loop (get_markets lib) max_pages ?st))"
    using a c by (cases "fetch_loop (get_markets lib) max_pages ?st")
      (auto simp add: fetch_all_markets_def split: option.splits)
  then show rs: "rs = concat (map (\<lambda>r. page_records (snd r)) reqs)"
    using new by simp
  show "length rs = sum_list (map (\<lambda>r. length (page_records (snd r))) reqs)"
    unfolding rs by (simp add: length_concat comp_def)
next
  show "fetch_all_markets scenario_client (str ''https://clob.polymarket.com'') 100 =
    (Inr [PDict [(str ''question'', PStr (str ''one''))],
          PDict [(str ''question'', PStr (str ''two''))],
          PDict [(str ''question'', PStr (str ''three''))]],
     [(PStr (str ''MA==''), Inr page1), (PStr (str ''B''), Inr page2)])"
    by (simp add: fetch_all_markets_def scenario_client_def fetch_loop.simps fetch_page_def
      page1_def page2_def str_def Let_def)
qed

theorem fetch_all_markets_concat_witness:
  "fetch_all_markets looping_client (str ''u'') 100
     = (Inr [PDict [(str ''question'', PStr (str ''Q''))]],
        [(PStr (str ''MA==''),
          Inr (PDict [(str ''data'', PList [PDict [(str ''question'', PStr (str ''Q''))]]),
                      (str ''next_cursor'', PStr (str ''MA==''))]))]) \<and>
   [PDict [(str ''question'', PStr (str ''Q''))]]
     = concat (map (\<lambda>r. page_records (snd r))
        [(PStr (str ''MA==''),
          Inr (PDict [(str ''data'', PList [PDict [(str ''question'', PStr (str ''Q''))]]),
                      (str ''next_cursor'', PStr (str ''MA==''))]))])"
proof -
  have e: "fetch_all_markets looping_client (str ''u'') 100
     = (Inr [PDict [(str ''question'', PStr (str ''Q''))]],
        [(PStr (str ''MA==''),
          Inr (PDict [(str ''data'', PList [PDict [(str ''question'', PStr (str ''Q''))]]),
                      (str ''next_cursor'', PStr (str ''MA==''))]))])"
    by (simp add: fetch_all_markets_def looping_client_def fetch_loop.simps fetch_page_def
      str_def Let_def)
  from fetch_all_markets_concat [where lib = looping_client and api_url = "str ''u''" and max_pages = 100
      and rs = "[PDict [(str ''question'', PStr (str ''Q''))]]"
      and reqs = "[(PStr (str ''MA==''),
          Inr (PDict [(str ''data'', PList [PDict [(str ''question'', PStr (str ''Q''))]]),
                      (str ''next_cursor'', PStr (str ''MA==''))]))]"] e
  show ?thesis by simp
qed

section \<open>Properties of the entry point\<close>

lemma top_level_handler_range:
  "top_level_handler e \<in> {Inr 1, Inr 130, Inl SystemExit, Inl GeneratorExit}"
  by (cases e) simp_all

lemma top_level_handler_no_escape:
  "top_level_handler e \<noteq> Inl (Exception cls)" "top_level_handler e \<noteq> Inl KeyboardInterrupt"
  "top_level_handler e \<noteq> Inr 0"
  by (cases e; simp)+

lemma top_level_handler_exits: "top_level_handler e \<in> exits"
  using top_level_handler_range [of e] by (auto simp add: exits_def)

lemma guarded_simps:
  "guarded (Some e, w) rest = (top_level_handler e, w)"
  "guarded (None, w) rest = rest w"
  by (simp_all add: guarded_def)

lemma guarded_exits: "(\<And>w. fst (rest w) \<in> exits) \<Longrightarrow> fst (guarded step rest) \<in> exits"
  by (cases step) (auto simp add: guarded_def top_level_handler_exits split: option.splits)

lemma save_markets_and_names_exits:
  "fst (save_markets_and_names os markets mpath npath indent saved_markets saved_names w)
     \<in> exits"
proof -
  obtain names where n: "extract_market_names markets = Inr names"
    by (simp add: extract_market_names_eq)
  have last: "\<And>wd. fst ((Inr 0 :: exc + int, wd :: 'a)) \<in> exits" by (simp add: exits_def)
  show ?thesis
    unfolding save_markets_and_names_def n sum.case
    by (intro guarded_exits last)
qed

lemma main_exits: "fst (main lib os args w) \<in> exits"
proof -
  let ?f = "fst (fetch_all_markets lib (arg_api_url args) (arg_max_pages args))"
  show ?thesis
  proof (cases ?f)
    case (Inl e)
    then show ?thesis by (simp add: main_def top_level_handler_exits)
  next
    case (Inr fetched)
    obtain cm where cm: "filter_current_markets fetched = Inr cm"
      by (simp add: filter_current_markets_eq)
    have one: "\<And>wp. fst ((Inr 1 :: exc + int, wp :: 'b)) \<in> exits" by (simp add: exits_def)
    show ?thesis
    proof (cases "fetched = []")
      case True
      then show ?thesis using Inr by (simp add: main_def exits_def)
    next
      case False
      show ?thesis
      proof (cases "arg_current args")
        case False2: False
        then show ?thesis using Inr False
          by (simp add: main_def save_markets_and_names_exits)
      next
        case True
        then have "fst (main lib os args w)
          = fst (guarded (print_stdout os w (Filtered (length cm) (length fetched)))
                   (\<lambda>wp. if cm = [] then (Inr 1, wp)
                      else save_markets_and_names os cm
                          (path_div os (script_dir os) DEFAULT_CURRENT_MARKETS_FILENAME)
                          (path_div os (script_dir os) DEFAULT_CURRENT_NAMES_FILENAME)
                          (arg_indent args) Saved_current_markets Saved_current_names wp))"
          using Inr False cm by (simp add: main_def)
        moreover have "fst (guarded (print_stdout os w (Filtered (length cm) (length fetched)))
                   (\<lambda>wp. if cm = [] then (Inr 1, wp)
                      else save_markets_and_names os cm
                          (path_div os (script_dir os) DEFAULT_CURRENT_MARKETS_FILENAME)
                          (path_div os (script_dir os) DEFAULT_CURRENT_NAMES_FILENAME)
                          (arg_indent args) Saved_current_markets Saved_current_names wp))
          \<in> exits"
        proof (rule guarded_exits)
          fix wp
          show "fst (if cm = [] then (Inr 1, wp)
                      else save_markets_and_names os cm
                          (path_div os (script_dir os) DEFAULT_CURRENT_MARKETS_FILENAME)
                          (path_div os (script_dir os) DEFAULT_CURRENT_NAMES_FILENAME)
                          (arg_indent args) Saved_current_markets Saved_current_names wp)
            \<in> exits"
          proof (cases "cm = []")
            case True
            then show ?thesis by (simp add: exits_def)
          next
            case False
            then show ?thesis by (simp add: save_markets_and_names_exits)
          qed
        qed
        ultimately show ?thesis by simp
      qed
    qed
  qed
qed

lemma exit_after_zero:
  "exit_after steps 0 = Inr 0 \<longleftrightarrow> first_raised steps = None"
  by (cases "first_raised steps") (simp_all add: exit_after_def top_level_handler_no_escape)

lemma save_markets_and_names_chain:
  assumes "save_json os w (PList markets) mpath indent = (ra, wa)"
    and "print_stdout os wa (saved_markets (length markets) mpath) = (rb, wb)"
    and "extract_market_names markets = Inr names"
    and "save_json os wb (PList (map PStr names)) npath indent = (rc, wc)"
    and "print_stdout os wc (saved_names (length names) npath) = (rd, wd)"
  shows "fst (save_markets_and_names os markets mpath npath indent saved_markets saved_names w)
    = exit_after [ra, rb, rc, rd] 0"
  using assms
  by (cases ra; cases rb; cases rc; cases rd)
    (simp_all add: save_markets_and_names_def guarded_def exit_after_def)

lemma main_fetch_raised:
  "fst (fetch_all_markets lib (arg_api_url args) (arg_max_pages args)) = Inl e \<Longrightarrow>
   fst (main lib os args w) = top_level_handler e"
  by (simp add: main_def)

lemma main_all_chain:
  assumes "fst (fetch_all_markets lib (arg_api_url args) (arg_max_pages args)) = Inr fetched"
    and "fetched \<noteq> []" and "\<not> arg_current args"
    and "save_json os w (PList fetched) (markets_path os args) (arg_indent args) = (ra, wa)"
    and "print_stdout os wa (Saved_markets (length fetched) (markets_path os args)) = (rb, wb)"
    and "extract_market_names fetched = Inr names"
    and "save_json os wb (PList (map PStr names)) (names_path os args) (arg_indent args)
      = (rc, wc)"
    and "print_stdout os wc (Saved_names (length names) (names_path os args)) = (rd, wd)"
  shows "fst (main lib os args w) = exit_after [ra, rb, rc, rd] 0"
proof -
  have "fst (main lib os args w)
    = fst (save_markets_and_names os fetched (markets_path os args) (names_path os args)
        (arg_indent args) Saved_markets Saved_names w)"
    using assms(1,2,3) by (simp add: main_def)
  then show ?thesis
    using save_markets_and_names_chain [where saved_markets = Saved_markets
        and saved_names = Saved_names, OF assms(4) assms(5) assms(6) assms(7) assms(8)] by simp
qed

lemma main_current_empty:
  assumes "fst (fetch_all_markets lib (arg_api_url args) (arg_max_pages args)) = Inr fetched"
    and "fetched \<noteq> []" and "arg_current args"
    and "filter_current_markets fetched = Inr []"
    and "print_stdout os w (Filtered 0 (length fetched)) = (rf, wp)"
  shows "fst (main lib os args w) = exit_after [rf] 1"
  using assms by (cases rf) (simp_all add: main_def guarded_def exit_after_def)

lemma main_current_chain:
  assumes "fst (fetch_all_markets lib (arg_api_url args) (arg_max_pages args)) = Inr fetched"
    and "fetched \<noteq> []" and "arg_current args"
    and "filter_current_markets fetched = Inr cm" and "cm \<noteq> []"
    and "print_stdout os w (Filtered (length cm) (length fetched)) = (rf, wp)"
    and "save_json os wp (PList cm)
          (path_div os (script_dir os) DEFAULT_CURRENT_MARKETS_FILENAME) (arg_indent args)
      = (ra, wa)"
    and "print_stdout os wa (Saved_current_markets (length cm)
          (path_div os (script_dir os) DEFAULT_CURRENT_MARKETS_FILENAME)) = (rb, wb)"
    and "extract_market_names cm = Inr names"
    and "save_json os wb (PList (map PStr names))
          (path_div os (script_dir os) DEFAULT_CURRENT_NAMES_FILENAME) (arg_indent args)
      = (rc, wc)"
    and "print_stdout os wc (Saved_current_names (length names)
          (path_div os (script_dir os) DEFAULT_CURRENT_NAMES_FILENAME)) = (rd, wd)"
  shows "fst (main lib os args w) = exit_after [rf, ra, rb, rc, rd] 0"
proof (cases rf)
  case (Some e)
  then show ?thesis using assms(1-6) by (simp add: main_def guarded_def exit_after_def)
next
  case None
  then have "fst (main lib os args w)
    = fst (save_markets_and_names os cm
        (path_div os (script_dir os) DEFAULT_CURRENT_MARKETS_FILENAME)
        (path_div os (script_dir os) DEFAULT_CURRENT_NAMES_FILENAME)
        (arg_indent args) Saved_current_markets Saved_current_names wp)"
    using assms(1-6) by (simp add: main_def guarded_def)
  then have "fst (main lib os args w) = exit_after [ra, rb, rc, rd] 0"
    using save_markets_and_names_chain [where saved_markets = Saved_current_markets
        and saved_names = Saved_current_names,
        OF assms(7) assms(8) assms(9) assms(10) assms(11)]
    by simp
  then show ?thesis using None by (simp add: exit_after_def)
qed

lemma exit_after_interrupt:
  "first_raised steps = Some KeyboardInterrupt \<Longrightarrow> exit_after steps code = Inr 130"
  by (simp add: exit_after_def)

lemma exit_after_fault:
  "first_raised steps = Some (Exception cls) \<Longrightarrow> exit_after steps code = Inr 1"
  by (simp add: exit_after_def)

lemma first_raised_None: "first_raised steps = None \<longleftrightarrow> (\<forall>r\<in>set steps. r = None)"
  by (induction steps rule: first_raised.induct) auto

lemma main_zero_needs_records:
  assumes z: "fst (main lib os args w) = Inr 0"
  shows "\<exists>ms. fst (fetch_all_markets lib (arg_api_url args) (arg_max_pages args)) = Inr ms \<and>
    ms \<noteq> [] \<and> (arg_current args \<longrightarrow> filter_current_markets ms \<noteq> Inr [])"
proof (cases "fst (fetch_all_markets lib (arg_api_url args) (arg_max_pages args))")
  case (Inl e)
  then show ?thesis using z main_fetch_raised [OF Inl, of os w]
      top_level_handler_no_escape(3) [of e] by simp
next
  case (Inr ms)
  have ne: "ms \<noteq> []" using z Inr by (auto simp add: main_def)
  have "arg_current args \<longrightarrow> filter_current_markets ms \<noteq> Inr []"
  proof (intro impI notI)
    assume c: "arg_current args" and f: "filter_current_markets ms = Inr []"
    obtain rf wp where p: "print_stdout os w (Filtered 0 (length ms)) = (rf, wp)"
      by (cases "print_stdout os w (Filtered 0 (length ms))")
    have "fst (main lib os args w) = exit_after [rf] 1"
      by (rule main_current_empty [OF Inr ne c f p])
    then have "exit_after [rf] 1 = Inr 0" using z by simp
    then show False
      by (cases rf) (simp_all add: exit_after_def top_level_handler_no_escape)
  qed
  then show ?thesis using Inr ne by simp
qed

lemma first_raised_four:
  "first_raised [ra, rb, rc, rd] = None \<longleftrightarrow> ra = None \<and> rb = None \<and> rc = None \<and> rd = None"
  by (simp add: first_raised_None)

lemma first_raised_five:
  "first_raised [rf, ra, rb, rc, rd] = None
     \<longleftrightarrow> rf = None \<and> ra = None \<and> rb = None \<and> rc = None \<and> rd = None"
  by (simp add: first_raised_None)

text \<open>
  C8. \<open>main\<close> returns 1 when no records were fetched and, with \<open>--current\<close>, when none
  survives the filter; it returns 130 when the user interrupts the fetch, and 1 when the
  client cannot be built. Once there are records to save, the exit code is decided by the
  first of the steps that raises, each taken on the state the steps before it left: 130
  for \<open>KeyboardInterrupt\<close>, 1 for an exception derived from \<open>Exception\<close>, and 0 exactly when
  both saves and every print succeed. No such exception and no \<open>KeyboardInterrupt\<close>
  escapes, the only exit codes are 0, 1 and 130, and 0 is returned only when records were
  fetched (and, with \<open>--current\<close>, survive the filter).
\<close>

theorem main_exit_codes:
  "(fst (fetch_all_markets lib (arg_api_url args) (arg_max_pages args)) = Inr []
      \<longrightarrow> fst (main lib os args w) = Inr 1) \<and>
   (fst (fetch_all_markets lib (arg_api_url args) (arg_max_pages args)) = Inl KeyboardInterrupt
      \<longrightarrow> fst (main lib os args w) = Inr 130) \<and>
   (fst (fetch_all_markets lib (arg_api_url args) (arg_max_pages args)) = Inl (Exception cls)
      \<longrightarrow> fst (main lib os args w) = Inr 1) \<and>
   (arg_current args \<and>
    fst (fetch_all_markets lib (arg_api_url args) (arg_max_pages args)) = Inr fetched \<and>
    fetched \<noteq> [] \<and> filter_current_markets fetched = Inr [] \<and>
    print_stdout os w (Filtered 0 (length fetched)) = (rf, wp)
      \<longrightarrow> fst (main lib os args w) = exit_after [rf] 1 \<and>
          (rf = None \<or> rf = Some (Exception cls) \<longrightarrow> fst (main lib os args w) = Inr 1) \<and>
          (rf = Some KeyboardInterrupt \<longrightarrow> fst (main lib os args w) = Inr 130)) \<and>
   (\<not> arg_current args \<and>
    fst (fetch_all_markets lib (arg_api_url args) (arg_max_pages args)) = Inr fetched \<and>
    fetched \<noteq> [] \<and>
    save_json os w (PList fetched) (markets_path os args) (arg_indent args) = (ra, wa) \<and>
    print_stdout os wa (Saved_markets (length fetched) (markets_path os args)) = (rb, wb) \<and>
    extract_market_names fetched = Inr names \<and>
    save_json os wb (PList (map PStr names)) (names_path os args) (arg_indent args)
      = (rc, wc) \<and>
    print_stdout os wc (Saved_names (length names) (names_path os args)) = (rd, wd)
      \<longrightarrow> fst (main lib os args w) = exit_after [ra, rb, rc, rd] 0 \<and>
          (fst (main lib os args w) = Inr 0
             \<longleftrightarrow> ra = None \<and> rb = None \<and> rc = None \<and> rd = None) \<and>
          (first_raised [ra, rb, rc, rd] = Some KeyboardInterrupt
             \<longrightarrow> fst (main lib os args w) = Inr 130) \<and>
          (first_raised [ra, rb, rc, rd] = Some (Exception cls)
             \<longrightarrow> fst (main lib os args w) = Inr 1)) \<and>
   (arg_current args \<and>
    fst (fetch_all_markets lib (arg_api_url args) (arg_max_pages args)) = Inr fetched \<and>
    fetched \<noteq> [] \<and> filter_current_markets fetched = Inr cm \<and> cm \<noteq> [] \<and>
    print_stdout os w (Filtered (length cm) (length fetched)) = (rf, wp) \<and>
    save_json os wp (PList cm)
        (path_div os (script_dir os) DEFAULT_CURRENT_MARKETS_FILENAME) (arg_indent args)
      = (ra, wa) \<and>
    print_stdout os wa (Saved_current_markets (length cm)
        (path_div os (script_dir os) DEFAULT_CURRENT_MARKETS_FILENAME)) = (rb, wb) \<and>
    extract_market_names cm = Inr names \<and>
    save_json os wb (PList (map PStr names))
        (path_div os (script_dir os) DEFAULT_CURRENT_NAMES_FILENAME) (arg_indent args)
      = (rc, wc) \<and>
    print_stdout os wc (Saved_current_names (length names)
        (path_div os (script_dir os) DEFAULT_CURRENT_NAMES_FILENAME)) = (rd, wd)
      \<longrightarrow> fst (main lib os args w) = exit_after [rf, ra, rb, rc, rd] 0 \<and>
          (fst (main lib os args w) = Inr 0
             \<longleftrightarrow> rf = None \<and> ra = None \<and> rb = None \<and> rc = None \<and> rd = None) \<and>
          (first_raised [rf, ra, rb, rc, rd] = Some KeyboardInterrupt
             \<longrightarrow> fst (main lib os args w) = Inr 130) \<and>
          (first_raised [rf, ra, rb, rc, rd] = Some (Exception cls)
             \<longrightarrow> fst (main lib os args w) = Inr 1)) \<and>
   fst (main lib os args w) \<noteq> Inl (Exception cls) \<and>
   fst (main lib os args w) \<noteq> Inl KeyboardInterrupt \<and>
   (fst (main lib os args w) = Inr code \<longrightarrow> code = 0 \<or> code = 1 \<or> code = 130) \<and>
   (fst (main lib os args w) = Inr 0
      \<longrightarrow> (\<exists>ms. fst (fetch_all_markets lib (arg_api_url args) (arg_max_pages args)) = Inr ms \<and>
                ms \<noteq> [] \<and> (arg_current args \<longrightarrow> filter_current_markets ms \<noteq> Inr [])))"
proof -
  let ?f = "fst (fetch_all_markets lib (arg_api_url args) (arg_max_pages args))"
  let ?m = "fst (main lib os args w)"
  have c1: "?f = Inr [] \<longrightarrow> ?m = Inr 1" by (simp add: main_def)
  have c2: "?f = Inl KeyboardInterrupt \<longrightarrow> ?m = Inr 130" by (simp add: main_def)
  have c3: "?f = Inl (Exception cls) \<longrightarrow> ?m = Inr 1" by (simp add: main_def)
  have c4: "arg_current args \<and> ?f = Inr fetched \<and> fetched \<noteq> [] \<and>
      filter_current_markets fetched = Inr [] \<and>
      print_stdout os w (Filtered 0 (length fetched)) = (rf, wp)
      \<longrightarrow> ?m = exit_after [rf] 1 \<and>
          (rf = None \<or> rf = Some (Exception cls) \<longrightarrow> ?m = Inr 1) \<and>
          (rf = Some KeyboardInterrupt \<longrightarrow> ?m = Inr 130)"
  proof
    assume a: "arg_current args \<and> ?f = Inr fetched \<and> fetched \<noteq> [] \<and>
      filter_current_markets fetched = Inr [] \<and>
      print_stdout os w (Filtered 0 (length fetched)) = (rf, wp)"
    then have "?m = exit_after [rf] 1"
      using main_current_empty [of lib args fetched os w rf wp] by blast
    then show "?m = exit_after [rf] 1 \<and>
          (rf = None \<or> rf = Some (Exception cls) \<longrightarrow> ?m = Inr 1) \<and>
          (rf = Some KeyboardInterrupt \<longrightarrow> ?m = Inr 130)"
      by (auto simp add: exit_after_def)
  qed
  have c5: "\<not> arg_current args \<and> ?f = Inr fetched \<and> fetched \<noteq> [] \<and>
    save_json os w (PList fetched) (markets_path os args) (arg_indent args) = (ra, wa) \<and>
    print_stdout os wa (Saved_markets (length fetched) (markets_path os args)) = (rb, wb) \<and>
    extract_market_names fetched = Inr names \<and>
    save_json os wb (PList (map PStr names)) (names_path os args) (arg_indent args)
      = (rc, wc) \<and>
    print_stdout os wc (Saved_names (length names) (names_path os args)) = (rd, wd)
      \<longrightarrow> ?m = exit_after [ra, rb, rc, rd] 0 \<and>
          (?m = Inr 0 \<longleftrightarrow> ra = None \<and> rb = None \<and> rc = None \<and> rd = None) \<and>
          (first_raised [ra, rb, rc, rd] = Some KeyboardInterrupt \<longrightarrow> ?m = Inr 130) \<and>
          (first_raised [ra, rb, rc, rd] = Some (Exception cls) \<longrightarrow> ?m = Inr 1)"
  proof
    assume a: "\<not> arg_current args \<and> ?f = Inr fetched \<and> fetched \<noteq> [] \<and>
    save_json os w (PList fetched) (markets_path os args) (arg_indent args) = (ra, wa) \<and>
    print_stdout os wa (Saved_markets (length fetched) (markets_path os args)) = (rb, wb) \<and>
    extract_market_names fetched = Inr names \<and>
    save_json os wb (PList (map PStr names)) (names_path os args) (arg_indent args)
      = (rc, wc) \<and>
    print_stdout os wc (Saved_names (length names) (names_path os args)) = (rd, wd)"
    then have m: "?m = exit_after [ra, rb, rc, rd] 0"
      using main_all_chain [of lib args fetched os w ra wa rb wb names rc wc rd wd] by blast
    show "?m = exit_after [ra, rb, rc, rd] 0 \<and>
          (?m = Inr 0 \<longleftrightarrow> ra = None \<and> rb = None \<and> rc = None \<and> rd = None) \<and>
          (first_raised [ra, rb, rc, rd] = Some KeyboardInterrupt \<longrightarrow> ?m = Inr 130) \<and>
          (first_raised [ra, rb, rc, rd] = Some (Exception cls) \<longrightarrow> ?m = Inr 1)"
      unfolding m exit_after_zero first_raised_four
      using exit_after_interrupt exit_after_fault by blast
  qed
  have c6: "arg_current args \<and> ?f = Inr fetched \<and>
    fetched \<noteq> [] \<and> filter_current_markets fetched = Inr cm \<and> cm \<noteq> [] \<and>
    print_stdout os w (Filtered (length cm) (length fetched)) = (rf, wp) \<and>
    save_json os wp (PList cm)
        (path_div os (script_dir os) DEFAULT_CURRENT_MARKETS_FILENAME) (arg_indent args)
      = (ra, wa) \<and>
    print_stdout os wa (Saved_current_markets (length cm)
        (path_div os (script_dir os) DEFAULT_CURRENT_MARKETS_FILENAME)) = (rb, wb) \<and>
    extract_market_names cm = Inr names \<and>
    save_json os wb (PList (map PStr names))
        (path_div os (script_dir os) DEFAULT_CURRENT_NAMES_FILENAME) (arg_indent args)
      = (rc, wc) \<and>
    print_stdout os wc (Saved_current_names (length names)
        (path_div os (script_dir os) DEFAULT_CURRENT_NAMES_FILENAME)) = (rd, wd)
      \<longrightarrow> ?m = exit_after [rf, ra, rb, rc, rd] 0 \<and>
          (?m = Inr 0 \<longleftrightarrow> rf = None \<and> ra = None \<and> rb = None \<and> rc = None \<and> rd = None) \<and>
          (first_raised [rf, ra, rb, rc, rd] = Some KeyboardInterrupt \<longrightarrow> ?m = Inr 130) \<and>
          (first_raised [rf, ra, rb, rc, rd] = Some (Exception cls) \<longrightarrow> ?m = Inr 1)"
  proof
    assume a: "arg_current args \<and> ?f = Inr fetched \<and>
    fetched \<noteq> [] \<and> filter_current_markets fetched = Inr cm \<and> cm \<noteq> [] \<and>
    print_stdout os w (Filtered (length cm) (length fetched)) = (rf, wp) \<and>
    save_json os wp (PList cm)
        (path_div os (script_dir os) DEFAULT_CURRENT_MARKETS_FILENAME) (arg_indent args)
      = (ra, wa) \<and>
    print_stdout os wa (Saved_current_markets (length cm)
        (path_div os (script_dir os) DEFAULT_CURRENT_MARKETS_FILENAME)) = (rb, wb) \<and>
    extract_market_names cm = Inr names \<and>
    save_json os wb (PList (map PStr names))
        (path_div os (script_dir os) DEFAULT_CURRENT_NAMES_FILENAME) (arg_indent args)
      = (rc, wc) \<and>
    print_stdout os wc (Saved_current_names (length names)
        (path_div os (script_dir os) DEFAULT_CURRENT_NAMES_FILENAME)) = (rd, wd)"
    then have m: "?m = exit_after [rf, ra, rb, rc, rd] 0"
      using main_current_chain [of lib args fetched cm os w rf wp ra wa rb wb names rc wc rd wd]
      by blast
    show "?m = exit_after [rf, ra, rb, rc, rd] 0 \<and>
          (?m = Inr 0 \<longleftrightarrow> rf = None \<and> ra = None \<and> rb = None \<and> rc = None \<and> rd = None) \<and>
          (first_raised [rf, ra, rb, rc, rd] = Some KeyboardInterrupt \<longrightarrow> ?m = Inr 130) \<and>
          (first_raised [rf, ra, rb, rc, rd] = Some (Exception cls) \<longrightarrow> ?m = Inr 1)"
      unfolding m exit_after_zero first_raised_five
      using exit_after_interrupt exit_after_fault by blast
  qed
  have ex: "?m \<in> exits" by (rule main_exits)
  then have c7: "?m \<noteq> Inl (Exception cls)" and c8: "?m \<noteq> Inl KeyboardInterrupt"
    and c9: "?m = Inr code \<longrightarrow> code = 0 \<or> code = 1 \<or> code = 130"
    by (auto simp add: exits_def)
  have c10: "?m = Inr 0 \<longrightarrow> (\<exists>ms. ?f = Inr ms \<and> ms \<noteq> [] \<and>
      (arg_current args \<longrightarrow> filter_current_markets ms \<noteq> Inr []))"
    using main_zero_needs_records [of lib os args w] by blast
  from c1 c2 c3 c4 c5 c6 c7 c8 c9 c10 show ?thesis by (intro conjI)
qed

theorem main_exit_codes_witness:
  "fst (main malformed_client working_platform default_args 0) = Inr 1 \<and>
   fst (main interrupted_client working_platform default_args 0) = Inr 130 \<and>
   fst (main unreachable_client working_platform default_args 0) = Inr 1 \<and>
   fst (main looping_client working_platform (default_args\<lparr>arg_current := True\<rparr>) 0) = Inr 1 \<and>
   fst (main looping_client working_platform default_args 0) = Inr 0 \<and>
   fst (main looping_client second_save_interrupted default_args 0) = Inr 130 \<and>
   fst (main looping_client stdout_cannot_encode default_args 0) = Inr 1 \<and>
   fst (main looping_client disk_full default_args 0) = Inr 1 \<and>
   fst (main open_market_client working_platform (default_args\<lparr>arg_current := True\<rparr>) 0)
     = Inr 0"
proof -
  let ?q = "[PDict [(str ''question'', PStr (str ''Q''))]]"
  let ?cur = "default_args\<lparr>arg_current := True\<rparr>"
  let ?n = "[str ''Q'']"
  have f1: "fst (fetch_all_markets malformed_client (arg_api_url default_args)
      (arg_max_pages default_args)) = Inr []"
    by (simp add: fetch_all_markets_def malformed_client_def fetch_loop.simps fetch_page_def
        default_args_def MAX_PAGES_def str_def Let_def)
  have f2: "fst (fetch_all_markets interrupted_client (arg_api_url default_args)
      (arg_max_pages default_args)) = Inl KeyboardInterrupt"
    by (simp add: fetch_all_markets_def interrupted_client_def fetch_loop.simps fetch_page_def
        on_exception_def default_args_def MAX_PAGES_def Let_def)
  have f3: "fst (fetch_all_markets unreachable_client (arg_api_url default_args)
      (arg_max_pages default_args)) = Inl (Exception ''ConnectionError'')"
    by (simp add: fetch_all_markets_def unreachable_client_def)
  have f4: "fst (fetch_all_markets looping_client (arg_api_url default_args)
      (arg_max_pages default_args)) = Inr ?q"
    by (simp add: fetch_all_markets_def looping_client_def fetch_loop.simps fetch_page_def
        default_args_def MAX_PAGES_def str_def Let_def)
  have f5: "fst (fetch_all_markets looping_client (arg_api_url ?cur) (arg_max_pages ?cur))
      = Inr ?q" using f4 by simp
  have f6: "fst (fetch_all_markets open_market_client (arg_api_url ?cur) (arg_max_pages ?cur))
      = Inr [open_market]"
    by (simp add: fetch_all_markets_def open_market_client_def fetch_loop.simps fetch_page_def
        default_args_def MAX_PAGES_def str_def Let_def)
  have ne: "?q \<noteq> []" by simp
  have nc: "\<not> arg_current default_args" by (simp add: default_args_def)
  have cu: "arg_current ?cur" by simp
  have fq: "filter_current_markets ?q = Inr []"
    by (simp add: filter_current_markets_def isinstance_dict_def str_def)
  have fo: "filter_current_markets [open_market] = Inr [open_market]"
    by (simp add: filter_current_markets_def isinstance_dict_def open_market_def str_def)
  have nq: "extract_market_names ?q = Inr ?n"
    by (simp add: extract_market_names_def isinstance_dict_def isinstance_str_def
        name_fields_def strip_def isspace_def str_def)
  have no: "extract_market_names [open_market] = Inr ?n"
    by (simp add: extract_market_names_def isinstance_dict_def isinstance_str_def
        name_fields_def strip_def isspace_def open_market_def str_def)
  note t = main_exit_codes [where args = default_args and w = "0::nat" and cls = "''OSError''"
      and fetched = ?q and names = ?n and cm = ?q and code = 0 and rf = None and wp = "0::nat"
      and wa = "1::nat" and wb = "1::nat" and wc = "2::nat" and wd = "2::nat"]
  \<comment> \<open>no records, an interrupted fetch, a client that cannot be built\<close>
  note ta = t [where lib = malformed_client and os = working_platform
      and ra = None and rb = None and rc = None and rd = None]
  have c1: "fst (main malformed_client working_platform default_args 0) = Inr 1"
    by (rule mp [OF conjunct1 [OF ta] f1])
  note tb = t [where lib = interrupted_client and os = working_platform
      and ra = None and rb = None and rc = None and rd = None]
  have c2: "fst (main interrupted_client working_platform default_args 0) = Inr 130"
    by (rule mp [OF conjunct1 [OF conjunct2 [OF tb]] f2])
  note tc = main_exit_codes [where args = default_args and w = "0::nat"
      and cls = "''ConnectionError''" and lib = unreachable_client and os = working_platform
      and fetched = ?q and names = ?n and cm = ?q and code = 0 and rf = None and wp = "0::nat"
      and wa = "1::nat" and wb = "1::nat" and wc = "2::nat" and wd = "2::nat"
      and ra = None and rb = None and rc = None and rd = None]
  have c3: "fst (main unreachable_client working_platform default_args 0) = Inr 1"
    by (rule mp [OF conjunct1 [OF conjunct2 [OF conjunct2 [OF tc]]] f3])
  \<comment> \<open>with \<open>--current\<close>, no record survives the filter\<close>
  note td = main_exit_codes [where args = ?cur and w = "0::nat" and cls = "''OSError''"
      and lib = looping_client and os = working_platform
      and fetched = ?q and names = ?n and cm = ?q and code = 0 and rf = None and wp = "0::nat"
      and wa = "1::nat" and wb = "1::nat" and wc = "2::nat" and wd = "2::nat"
      and ra = None and rb = None and rc = None and rd = None]
  have p0: "print_stdout working_platform 0 (Filtered 0 (length ?q)) = (None, 0)"
    by (simp add: working_platform_def)
  have c4: "fst (main looping_client working_platform ?cur 0) = Inr 1"
    using mp [OF conjunct1 [OF conjunct2 [OF conjunct2 [OF conjunct2 [OF td]]]]]
      cu f5 ne fq p0 by (simp add: exit_after_def)
  \<comment> \<open>without \<open>--current\<close>: the records are saved, or a step raises\<close>
  have "fst (main looping_client working_platform default_args 0)
      = exit_after [None, None, None, None] 0 \<and> True"
    using mp [OF conjunct1 [OF conjunct2 [OF conjunct2 [OF conjunct2 [OF conjunct2
        [OF t [where lib = looping_client and os = working_platform
          and ra = None and rb = None and rc = None and rd = None]]]]]]]
      nc f4 ne nq by (simp add: working_platform_def)
  then have c5: "fst (main looping_client working_platform default_args 0) = Inr 0"
    by (simp add: exit_after_def)
  have "fst (main looping_client second_save_interrupted default_args 0)
      = exit_after [None, None, Some KeyboardInterrupt, None] 0 \<and> True"
    using mp [OF conjunct1 [OF conjunct2 [OF conjunct2 [OF conjunct2 [OF conjunct2
        [OF t [where lib = looping_client and os = second_save_interrupted
          and ra = None and rb = None and rc = "Some KeyboardInterrupt" and rd = None]]]]]]]
      nc f4 ne nq by (simp add: second_save_interrupted_def working_platform_def)
  then have c6: "fst (main looping_client second_save_interrupted default_args 0) = Inr 130"
    by (simp add: exit_after_def)
  have "fst (main looping_client stdout_cannot_encode default_args 0)
      = exit_after [None, Some (Exception ''UnicodeEncodeError''), None,
          Some (Exception ''UnicodeEncodeError'')] 0 \<and> True"
    using mp [OF conjunct1 [OF conjunct2 [OF conjunct2 [OF conjunct2 [OF conjunct2
        [OF t [where lib = looping_client and os = stdout_cannot_encode
          and ra = None and rb = "Some (Exception ''UnicodeEncodeError'')" and rc = None
          and rd = "Some (Exception ''UnicodeEncodeError'')"]]]]]]]
      nc f4 ne nq by (simp add: stdout_cannot_encode_def working_platform_def)
  then have c7: "fst (main looping_client stdout_cannot_encode default_args 0) = Inr 1"
    by (simp add: exit_after_def)
  have "fst (main looping_client disk_full default_args 0)
      = exit_after [Some (Exception ''OSError''), None, Some (Exception ''OSError''), None] 0
        \<and> True"
    using mp [OF conjunct1 [OF conjunct2 [OF conjunct2 [OF conjunct2 [OF conjunct2
        [OF t [where lib = looping_client and os = disk_full
          and ra = "Some (Exception ''OSError'')" and rb = None
          and rc = "Some (Exception ''OSError'')" and rd = None]]]]]]]
      nc f4 ne nq by (simp add: disk_full_def working_platform_def)
  then have c8: "fst (main looping_client disk_full default_args 0) = Inr 1"
    by (simp add: exit_after_def)
  \<comment> \<open>with \<open>--current\<close> and an open market\<close>
  note te = main_exit_codes [where args = ?cur and w = "0::nat" and cls = "''OSError''"
      and lib = open_market_client and os = working_platform
      and fetched = "[open_market]" and names = ?n and cm = "[open_market]" and code = 0
      and rf = None and wp = "0::nat"
      and wa = "1::nat" and wb = "1::nat" and wc = "2::nat" and wd = "2::nat"
      and ra = None and rb = None and rc = None and rd = None]
  have "fst (main open_market_client working_platform ?cur 0)
      = exit_after [None, None, None, None, None] 0 \<and> True"
    using mp [OF conjunct1 [OF conjunct2 [OF conjunct2 [OF conjunct2 [OF conjunct2
        [OF conjunct2 [OF te]]]]]]] cu f6 fo no
    by (simp add: working_platform_def)
  then have c9: "fst (main open_market_client working_platform ?cur 0) = Inr 0"
    by (simp add: exit_after_def)
  from c1 c2 c3 c4 c5 c6 c7 c8 c9 show ?thesis by (intro conjI)
qed

end
